theory Spec2Isabelle
  imports Main "HOL-Library.AList"
begin

section \<open>The message envelope\<close>

text \<open>
  \<open>OperationMessageType\<close> is a Go string type: an inbound frame may carry any string as
  its type, and the pump compares it with the constants below.
\<close>

type_synonym OperationMessageType = string

definition GqlConnectionInit :: OperationMessageType where
  "GqlConnectionInit = ''connection_init''"

definition GqlConnectionError :: OperationMessageType where
  "GqlConnectionError = ''conn_err''"

definition GqlStart :: OperationMessageType where
  "GqlStart = ''start''"

definition GqlStop :: OperationMessageType where
  "GqlStop = ''stop''"

definition GqlError :: OperationMessageType where
  "GqlError = ''error''"

definition GqlData :: OperationMessageType where
  "GqlData = ''data''"

definition GqlComplete :: OperationMessageType where
  "GqlComplete = ''complete''"

definition GqlConnectionKeepAlive :: OperationMessageType where
  "GqlConnectionKeepAlive = ''ka''"

definition GqlConnectionAck :: OperationMessageType where
  "GqlConnectionAck = ''connection_ack''"

definition GqlConnectionTerminate :: OperationMessageType where
  "GqlConnectionTerminate = ''connection_terminate''"

definition GqlUnknown :: OperationMessageType where
  "GqlUnknown = ''unknown''"

definition GqlInternal :: OperationMessageType where
  "GqlInternal = ''internal''"

text \<open>
  A Go \<open>error\<close> value, as far as the engine looks at it: the text of \<open>err.Error()\<close> and
  the code \<open>websocket.CloseStatus(err)\<close> reads from it (\<open>-1\<close> when the error is no close
  error).
\<close>

record error =
  Error :: string
  CloseStatus :: int

text \<open>\<open>fmt.Errorf\<close> with no wrapped error: a plain message, no close status.\<close>

definition errorf :: "string \<Rightarrow> error" where
  "errorf m = \<lparr>Error = m, CloseStatus = - 1\<rparr>"

definition io_EOF :: error where
  "io_EOF = errorf ''EOF''"

definition StatusNormalClosure :: int where
  "StatusNormalClosure = 1000"

fun strings_Contains :: "string \<Rightarrow> string \<Rightarrow> bool" where
  "strings_Contains [] substr = (substr = [])"
| "strings_Contains (c # cs) substr =
     (take (length substr) (c # cs) = substr \<or> strings_Contains cs substr)"

text \<open>
  The payload is \<open>json.RawMessage\<close>. The bytes are kept as the value they encode: nothing,
  bytes given from outside, or the object \<open>{query, variables}\<close> of a start frame.
\<close>

datatype RawMessage = NoPayload | Bytes string | StartPayload string string

record OperationMessage =
  ID :: string
  Type :: OperationMessageType
  Payload :: RawMessage

section \<open>Subscriptions and the engine state\<close>

text \<open>
  \<open>variables\<close> stands for the caller's map through the one thing the engine does with it:
  \<open>json.Marshal\<close>, which gives the bytes (\<open>Inr\<close>) or fails (\<open>Inl\<close>). \<open>handler\<close> is the
  caller's \<open>handlerFunc\<close>; what \<open>wrapHandler\<close> adds (a non-nil result goes to
  \<open>errorChan\<close>) is part of \<open>runSubHandler\<close> below.
\<close>

record subscription =
  query :: string
  variables :: "error + string"
  handler :: "OperationMessage \<Rightarrow> error option"
  started :: bool
  restarting :: bool

datatype logged = LogMessage OperationMessage | LogText string

text \<open>
  What the engine does to the outside, in the order it does it. \<open>RunEntered\<close> marks an
  entry into \<open>Run\<close> and \<open>ConnectAttempt\<close> the end of one pass through the loop of
  \<open>init\<close>, with the error of that pass; the other events are calls the source makes.
\<close>

datatype event =
    RunEntered
  | ConnectAttempt "error option"
  | Dialed "error option"
  | ReadLimitSet nat int
  | Sent nat OperationMessage "error option"
  | Received nat "error + OperationMessage"
  | ConnClosed nat "error option"
  | ContextCancelled
  | Logged logged
  | Slept int
  | OnConnected
  | OnDisconnected
  | OnError error
  | HandlerSpawned OperationMessage

text \<open>
  The outside of the engine, fixed for a run: the answer of the \<open>k\<close>-th dial, write,
  read and close, the time that passes before the \<open>k\<close>-th reading of the clock, the
  identifiers \<open>uuid.New\<close> hands out, \<open>uuid.Parse\<close> followed by \<open>String\<close> (the canonical
  text, or nothing when parsing fails), and the choice \<open>select\<close> makes when two of its
  cases are ready.
\<close>

record world =
  lag :: "nat \<Rightarrow> nat"
  dialResult :: "nat \<Rightarrow> error option"
  writeResult :: "nat \<Rightarrow> error option"
  readResult :: "nat \<Rightarrow> error + OperationMessage"
  closeResult :: "nat \<Rightarrow> error option"
  uuid_New :: "nat \<Rightarrow> string"
  uuid_Parse :: "string \<Rightarrow> string option"
  pick :: "nat \<Rightarrow> bool"

text \<open>
  The fields of the Go struct that the engine reads or writes. \<open>conn\<close> is the number of
  the dial that made the connection, or \<open>None\<close> for nil. \<open>ctx\<close> holds \<open>sc.context\<close> and
  \<open>sc.cancel\<close>, which \<open>init\<close> sets together: \<open>None\<close> before the first \<open>init\<close> (both
  nil), otherwise whether the context is cancelled. The registry is the list of its entries
  in the order a \<open>range\<close> over the map yields them (Go leaves that order open), with one
  entry per key. \<open>log\<close>, \<open>onConnected\<close> and \<open>onDisconnected\<close> say whether the callback is
  set; \<open>onError\<close> is the caller's policy, as a function of the error. \<open>errorChan\<close> lists
  the errors that handler tasks are waiting to send. A call runs from its start to its
  end on the state: calls of other tasks are not interleaved with it, and the locks of the
  source do nothing here.
\<close>

record SubscriptionClient =
  conn :: "nat option"
  connectionParams :: "(error + string) option"
  ctx :: "bool option"
  subscriptions :: "(string \<times> subscription) list"
  isRunning :: bool
  readLimit :: int
  log :: bool
  retryTimeout :: int
  onConnected :: bool
  onDisconnected :: bool
  onError :: "(error \<Rightarrow> error option) option"
  errorChan :: "error list"
  disabledLogTypes :: "OperationMessageType list"

record engine = SubscriptionClient +
  env :: world
  clock :: int
  ticks :: nat
  dials :: nat
  writes :: nat
  reads :: nat
  closes :: nat
  uuids :: nat
  selects :: nat
  trace :: "event list"

text \<open>A call either returns, with a value and the state it leaves, or panics.\<close>

datatype 'a outcome = Panic | Ret 'a engine

definition Second :: int where
  "Second = 1000000000"

definition Minute :: int where
  "Minute = 60 * Second"

definition NewSubscriptionClient :: "world \<Rightarrow> engine" where
  "NewSubscriptionClient w =
     \<lparr>conn = None, connectionParams = None, ctx = None, subscriptions = [],
      isRunning = False, readLimit = 10 * 1024 * 1024, log = False,
      retryTimeout = Minute, onConnected = False, onDisconnected = False,
      onError = None, errorChan = [], disabledLogTypes = [],
      env = w, clock = 0, ticks = 0, dials = 0, writes = 0, reads = 0, closes = 0,
      uuids = 0, selects = 0, trace = []\<rparr>"

definition setIsRunning :: "bool \<Rightarrow> engine \<Rightarrow> engine" where
  "setIsRunning v s = s\<lparr>isRunning := v\<rparr>"

section \<open>The connection, the clock and the log\<close>

definition WriteJSON :: "nat \<Rightarrow> OperationMessage \<Rightarrow> engine \<Rightarrow> error option \<times> engine" where
  "WriteJSON c msg s =
     (let r = writeResult (env s) (writes s)
      in (r, s\<lparr>writes := Suc (writes s), trace := trace s @ [Sent c msg r]\<rparr>))"

definition ReadJSON :: "nat \<Rightarrow> engine \<Rightarrow> (error + OperationMessage) \<times> engine" where
  "ReadJSON c s =
     (let r = readResult (env s) (reads s)
      in (r, s\<lparr>reads := Suc (reads s), trace := trace s @ [Received c r]\<rparr>))"

definition conn_Close :: "nat \<Rightarrow> engine \<Rightarrow> error option \<times> engine" where
  "conn_Close c s =
     (let r = closeResult (env s) (closes s)
      in (r, s\<lparr>closes := Suc (closes s), trace := trace s @ [ConnClosed c r]\<rparr>))"

definition SetReadLimit :: "nat \<Rightarrow> int \<Rightarrow> engine \<Rightarrow> engine" where
  "SetReadLimit c limit s = s\<lparr>trace := trace s @ [ReadLimitSet c limit]\<rparr>"

definition newWebsocketConn :: "engine \<Rightarrow> (error + nat) \<times> engine" where
  "newWebsocketConn s =
     (let r = dialResult (env s) (dials s);
          s' = s\<lparr>dials := Suc (dials s), trace := trace s @ [Dialed r]\<rparr>
      in case r of Some e \<Rightarrow> (Inl e, s') | None \<Rightarrow> (Inr (dials s), s'))"

definition time_Now :: "engine \<Rightarrow> int \<times> engine" where
  "time_Now s =
     (let t = clock s + int (lag (env s) (ticks s))
      in (t, s\<lparr>clock := t, ticks := Suc (ticks s)\<rparr>))"

definition time_Sleep :: "int \<Rightarrow> engine \<Rightarrow> engine" where
  "time_Sleep d s = s\<lparr>clock := clock s + d, trace := trace s @ [Slept d]\<rparr>"

definition printLog :: "logged \<Rightarrow> OperationMessageType \<Rightarrow> engine \<Rightarrow> engine" where
  "printLog message opType s =
     (if \<not> log s then s
      else if opType \<in> set (disabledLogTypes s) then s
      else s\<lparr>trace := trace s @ [Logged message]\<rparr>)"

text \<open>\<open>sc.cancel()\<close>: a call of a nil function before the first \<open>init\<close>.\<close>

definition cancel :: "engine \<Rightarrow> unit outcome" where
  "cancel s =
     (case ctx s of
        None \<Rightarrow> Panic
      | Some _ \<Rightarrow> Ret () (s\<lparr>ctx := Some True, trace := trace s @ [ContextCancelled]\<rparr>))"

section \<open>The registry\<close>

definition stop_frame :: "string \<Rightarrow> OperationMessage" where
  "stop_frame sid = \<lparr>ID = sid, Type = GqlStop, Payload = NoPayload\<rparr>"

definition start_frame :: "string \<Rightarrow> string \<Rightarrow> string \<Rightarrow> OperationMessage" where
  "start_frame sid q v = \<lparr>ID = sid, Type = GqlStart, Payload = StartPayload q v\<rparr>"

definition stopSubscription :: "string \<Rightarrow> engine \<Rightarrow> error option \<times> engine" where
  "stopSubscription sid s =
     (case conn s of
        None \<Rightarrow> (None, s)
      | Some c \<Rightarrow>
          (let msg = \<lparr>ID = sid, Type = GqlStop, Payload = NoPayload\<rparr>
           in WriteJSON c msg (printLog (LogMessage msg) GqlStop s)))"

definition Unsubscribe :: "string \<Rightarrow> engine \<Rightarrow> error option \<times> engine" where
  "Unsubscribe sid s =
     (case map_of (subscriptions s) sid of
        None \<Rightarrow> (Some (errorf (''subscription id '' @ sid @ '' doesn't not exist'')), s)
      | Some _ \<Rightarrow>
          (case stopSubscription sid s of
             (err, s1) \<Rightarrow>
               (err, s1\<lparr>subscriptions := AList.delete sid (subscriptions s1)\<rparr>)))"

definition findSubscription :: "string \<Rightarrow> engine \<Rightarrow> subscription option" where
  "findSubscription i s =
     (case uuid_Parse (env s) i of
        None \<Rightarrow> None
      | Some canonical \<Rightarrow> map_of (subscriptions s) canonical)"

text \<open>
  \<open>go sub.handler(message)\<close>: the handler runs as a task of its own. A non-nil result of
  the caller's function is sent on \<open>errorChan\<close>, where the task waits for the pump to
  receive it.
\<close>

definition runSubHandler :: "OperationMessage \<Rightarrow> engine \<Rightarrow> engine" where
  "runSubHandler message s =
     (case findSubscription (ID message) s of
        None \<Rightarrow> s
      | Some sub \<Rightarrow>
          s\<lparr>errorChan := errorChan s @ (case handler sub message of None \<Rightarrow> [] | Some e \<Rightarrow> [e]),
            trace := trace s @ [HandlerSpawned message]\<rparr>)"

text \<open>
  \<open>startSubscription\<close> gets a pointer into the registry, never nil there; it returns the
  subscription as the call leaves it. \<open>sc.conn.WriteJSON\<close> on a nil connection panics.
\<close>

definition startSubscription ::
  "string \<Rightarrow> subscription \<Rightarrow> engine \<Rightarrow> (error option \<times> subscription) outcome" where
  "startSubscription sid sub s =
     (if started sub then Ret (None, sub) s
      else case variables sub of
        Inl e \<Rightarrow> Ret (Some e, sub) s
      | Inr v \<Rightarrow>
          (let msg = \<lparr>ID = sid, Type = GqlStart, Payload = StartPayload (query sub) v\<rparr>;
               s1 = printLog (LogMessage msg) GqlStart s
           in case conn s1 of
                None \<Rightarrow> Panic
              | Some c \<Rightarrow>
                  (case WriteJSON c msg s1 of
                     (Some e, s2) \<Rightarrow> Ret (Some e, sub) s2
                   | (None, s2) \<Rightarrow> Ret (None, sub\<lparr>restarting := False, started := True\<rparr>) s2)))"

definition createSubscription ::
  "string \<Rightarrow> (error + string) \<Rightarrow> (OperationMessage \<Rightarrow> error option) \<Rightarrow> engine
     \<Rightarrow> (string \<times> error option) outcome" where
  "createSubscription q vars h s =
     (let sid = uuid_New (env s) (uuids s);
          s0 = s\<lparr>uuids := Suc (uuids s)\<rparr>;
          sub = \<lparr>query = q, variables = vars, handler = h, started = False, restarting = False\<rparr>
      in if isRunning s0 \<and> conn s0 \<noteq> None then
           (case startSubscription sid sub s0 of
              Panic \<Rightarrow> Panic
            | Ret (Some e, _) s1 \<Rightarrow> Ret ([], Some e) s1
            | Ret (None, sub') s1 \<Rightarrow>
                Ret (sid, None) (s1\<lparr>subscriptions := AList.update sid sub' (subscriptions s1)\<rparr>))
         else Ret (sid, None) (s0\<lparr>subscriptions := AList.update sid sub (subscriptions s0)\<rparr>))"

definition terminate :: "engine \<Rightarrow> error option \<times> engine" where
  "terminate s =
     (case conn s of
        None \<Rightarrow> (None, s)
      | Some c \<Rightarrow>
          (let msg = \<lparr>ID = [], Type = GqlConnectionTerminate, Payload = NoPayload\<rparr>
           in WriteJSON c msg (printLog (LogMessage msg) GqlConnectionTerminate s)))"

section \<open>Connecting\<close>

definition sendConnectionInit :: "engine \<Rightarrow> error option outcome" where
  "sendConnectionInit s =
     (case connectionParams s of
        Some (Inl e) \<Rightarrow> Ret (Some e) s
      | params \<Rightarrow>
          (let msg = \<lparr>ID = [], Type = GqlConnectionInit,
                      Payload = (case params of Some (Inr b) \<Rightarrow> Bytes b | _ \<Rightarrow> NoPayload)\<rparr>;
               s1 = printLog (LogMessage msg) GqlConnectionInit s
           in case conn s1 of
                None \<Rightarrow> Panic
              | Some c \<Rightarrow> (case WriteJSON c msg s1 of (r, s2) \<Rightarrow> Ret r s2)))"

text \<open>One pass through the loop of \<open>init\<close>, up to the test of \<open>err\<close>.\<close>

definition init_attempt :: "engine \<Rightarrow> error option outcome" where
  "init_attempt s =
     (case (if conn s = None then
              (case newWebsocketConn s of
                 (Inl e, s') \<Rightarrow> (Some e, s')
               | (Inr c, s') \<Rightarrow> (None, s'\<lparr>conn := Some c\<rparr>))
            else (None, s)) of
        (Some e, s1) \<Rightarrow> Ret (Some e) s1
      | (None, s1) \<Rightarrow>
          (case conn s1 of
             None \<Rightarrow> Panic
           | Some c \<Rightarrow> sendConnectionInit (SetReadLimit c (readLimit s1) s1)))"

text \<open>What \<open>init\<close> does once an attempt has failed and the budget is spent.\<close>

definition give_up :: "engine \<Rightarrow> engine" where
  "give_up s = (if onDisconnected s then s\<lparr>trace := trace s @ [OnDisconnected]\<rparr> else s)"

definition retry_pause :: "error \<Rightarrow> engine \<Rightarrow> engine" where
  "retry_pause e s =
     time_Sleep Second (printLog (LogText (Error e @ ''. retry in second....'')) GqlInternal s)"

definition attempted :: "error option \<Rightarrow> engine \<Rightarrow> engine" where
  "attempted r s = s\<lparr>trace := trace s @ [ConnectAttempt r]\<rparr>"

lemma init_attempt_keeps:
  "init_attempt s = Ret r s1 \<Longrightarrow> clock s1 = clock s \<and> retryTimeout s1 = retryTimeout s"
  by (auto simp: init_attempt_def newWebsocketConn_def sendConnectionInit_def SetReadLimit_def
      WriteJSON_def printLog_def Let_def
      split: if_splits option.splits sum.splits prod.splits)

text \<open>
  The loop of \<open>init\<close>; \<open>start\<close> is the reading of the clock taken before the first
  attempt. It ends because every retry sleeps a second.
\<close>

function init_loop :: "int \<Rightarrow> engine \<Rightarrow> error option outcome" where
  "init_loop start s =
     (case init_attempt s of
        Panic \<Rightarrow> Panic
      | Ret None s1 \<Rightarrow> Ret None (attempted None s1)
      | Ret (Some e) s1 \<Rightarrow>
          (case time_Now (attempted (Some e) s1) of
             (t, s2) \<Rightarrow>
               if start + retryTimeout s2 < t then Ret (Some e) (give_up s2)
               else init_loop start (retry_pause e s2)))"
  by pat_completeness auto
termination
proof (relation "measure (\<lambda>(start, s). nat (start + retryTimeout s + 1 - clock s))")
  show "wf (measure (\<lambda>(start, s). nat (start + retryTimeout s + 1 - clock s)))"
    by simp
next
  fix start :: int and s s1 s2 :: engine and r e t
  assume a: "init_attempt s = Ret r s1" and "r = Some e"
    and tn: "(t, s2) = time_Now (attempted (Some e) s1)"
    and within: "\<not> start + retryTimeout s2 < t"
  from a have k: "clock s1 = clock s" "retryTimeout s1 = retryTimeout s"
    using init_attempt_keeps by blast+
  from tn have t: "t = clock s1 + int (lag (env s1) (ticks s1))" "clock s2 = t"
    "retryTimeout s2 = retryTimeout s1"
    by (auto simp: time_Now_def attempted_def Let_def)
  have p: "clock (retry_pause e s2) = t + Second" "retryTimeout (retry_pause e s2) = retryTimeout s2"
    using t by (auto simp: retry_pause_def time_Sleep_def printLog_def)
  show "((start, retry_pause e s2), (start, s))
      \<in> measure (\<lambda>(start, s). nat (start + retryTimeout s + 1 - clock s))"
    using k t p within by (simp add: Second_def)
qed

definition init :: "engine \<Rightarrow> error option outcome" where
  "init s = (case time_Now s of (now, s1) \<Rightarrow> init_loop now (s1\<lparr>ctx := Some False\<rparr>))"

section \<open>Close and the teardown of Reset\<close>

text \<open>
  The loop of \<open>Close\<close> over the keys of the registry: it stops at the first
  \<open>Unsubscribe\<close> that returns an error.
\<close>

fun Close_subs :: "string list \<Rightarrow> engine \<Rightarrow> error option \<times> engine" where
  "Close_subs [] s = (None, s)"
| "Close_subs (sid # ids) s =
     (case Unsubscribe sid s of
        (Some e, s1) \<Rightarrow> (Some e, s1)
      | (None, s1) \<Rightarrow> Close_subs ids s1)"

definition Close :: "engine \<Rightarrow> error option outcome" where
  "Close s =
     (let s0 = setIsRunning False s
      in case Close_subs (map fst (subscriptions s0)) s0 of
           (Some e, s1) \<Rightarrow>
             (case cancel s1 of Panic \<Rightarrow> Panic | Ret _ s2 \<Rightarrow> Ret (Some e) s2)
         | (None, s1) \<Rightarrow>
             (case (case conn s1 of
                      None \<Rightarrow> (None, s1)
                    | Some c \<Rightarrow>
                        (case terminate s1 of
                           (_, s2) \<Rightarrow>
                             (case conn_Close c s2 of (r, s3) \<Rightarrow> (r, s3\<lparr>conn := None\<rparr>)))) of
                (err, s4) \<Rightarrow>
                  (case cancel s4 of Panic \<Rightarrow> Panic | Ret _ s5 \<Rightarrow> Ret err s5)))"

text \<open>The loop of \<open>Reset\<close> over the entries of the registry.\<close>

fun Reset_subs :: "(string \<times> subscription) list \<Rightarrow> engine \<Rightarrow> engine" where
  "Reset_subs [] s = s"
| "Reset_subs ((sid, sub) # rest) s =
     (case stopSubscription sid s of
        (_, s1) \<Rightarrow>
          Reset_subs rest
            (s1\<lparr>subscriptions :=
                  AList.update sid (sub\<lparr>started := False, restarting := True\<rparr>)
                    (subscriptions s1)\<rparr>))"

definition drop_conn :: "engine \<Rightarrow> engine" where
  "drop_conn s =
     (case conn s of
        None \<Rightarrow> s
      | Some c \<Rightarrow>
          (case terminate s of
             (_, s1) \<Rightarrow> (case conn_Close c s1 of (_, s2) \<Rightarrow> s2\<lparr>conn := None\<rparr>)))"

text \<open>\<open>Reset\<close> on a running engine, up to its call of \<open>Run\<close>.\<close>

definition Reset_teardown :: "engine \<Rightarrow> unit outcome" where
  "Reset_teardown s = cancel (drop_conn (Reset_subs (subscriptions s) s))"

section \<open>The pump\<close>

text \<open>The loop of \<open>Run\<close> that starts the subscriptions of the registry.\<close>

fun startAll :: "(string \<times> subscription) list \<Rightarrow> engine \<Rightarrow> error option outcome" where
  "startAll [] s = Ret None s"
| "startAll ((k, v) # rest) s =
     (case startSubscription k v s of
        Panic \<Rightarrow> Panic
      | Ret (Some e, _) s1 \<Rightarrow> (case Unsubscribe k s1 of (_, s2) \<Rightarrow> Ret (Some e) s2)
      | Ret (None, v') s1 \<Rightarrow>
          startAll rest (s1\<lparr>subscriptions := AList.update k v' (subscriptions s1)\<rparr>))"

text \<open>
  The \<open>select\<close> of the loop. A case is ready when the context is cancelled, or when a
  handler task waits to send on \<open>errorChan\<close>; \<open>default\<close> runs when neither is. Go takes
  any one of the ready cases: with both ready the world's \<open>pick\<close> decides.
\<close>

datatype selected = CtxDone | ErrorReceived error | Default

definition select :: "engine \<Rightarrow> selected \<times> engine" where
  "select s =
     (let s1 = s\<lparr>selects := Suc (selects s)\<rparr>
      in case errorChan s of
           [] \<Rightarrow> (if ctx s = Some True then CtxDone else Default, s1)
         | e # es \<Rightarrow>
             if ctx s = Some True \<and> pick (env s) (selects s) then (CtxDone, s1)
             else (ErrorReceived e, s1\<lparr>errorChan := es\<rparr>))"

text \<open>What one pass through the loop leads to.\<close>

datatype step = Continue engine | Return "error option" engine | Restart engine | Crash

text \<open>The error policy, as both the error channel and a failed read call it.\<close>

definition report :: "error \<Rightarrow> engine \<Rightarrow> step" where
  "report e s =
     (case onError s of
        None \<Rightarrow> Continue s
      | Some policy \<Rightarrow>
          (case policy e of
             Some err \<Rightarrow> Return (Some err) (s\<lparr>trace := trace s @ [OnError e]\<rparr>)
           | None \<Rightarrow> Continue (s\<lparr>trace := trace s @ [OnError e]\<rparr>)))"

definition read_failed :: "error \<Rightarrow> engine \<Rightarrow> step" where
  "read_failed err s =
     (if err = io_EOF \<or> strings_Contains (Error err) ''EOF'' then Restart s
      else if CloseStatus err = StatusNormalClosure then Return None s
      else if CloseStatus err \<noteq> - 1 then
        Restart (printLog (LogText (Error err @ ''. Retry connecting...'')) GqlInternal s)
      else report err s)"

definition dispatch :: "OperationMessage \<Rightarrow> engine \<Rightarrow> engine" where
  "dispatch message s =
     (if Type message = GqlError \<or> Type message = GqlData then runSubHandler message s
      else if Type message = GqlComplete then snd (Unsubscribe (ID message) s)
      else if Type message = GqlConnectionAck then
        (if onConnected s then s\<lparr>trace := trace s @ [OnConnected]\<rparr> else s)
      else s)"

definition run_step :: "engine \<Rightarrow> step" where
  "run_step s =
     (case ctx s of
        None \<Rightarrow> Crash
      | Some _ \<Rightarrow>
          (case select s of
             (CtxDone, s1) \<Rightarrow> Return None s1
           | (ErrorReceived e, s1) \<Rightarrow> report e s1
           | (Default, s1) \<Rightarrow>
               (case conn s1 of
                  None \<Rightarrow> Crash
                | Some c \<Rightarrow>
                    (case ReadJSON c s1 of
                       (Inl err, s2) \<Rightarrow> read_failed err s2
                     | (Inr message, s2) \<Rightarrow> Continue (dispatch message s2)))))"

text \<open>
  \<open>Run\<close>, its loop and \<open>Reset\<close> call each other and need not return: the first argument
  bounds the number of passes through the loop, and \<open>None\<close> says the bound was reached.
\<close>

fun Run :: "nat \<Rightarrow> engine \<Rightarrow> error option outcome option"
  and run_loop :: "nat \<Rightarrow> engine \<Rightarrow> error option outcome option"
  and Reset :: "nat \<Rightarrow> engine \<Rightarrow> error option outcome option"
where
  "Run n s =
     (case init (s\<lparr>trace := trace s @ [RunEntered]\<rparr>) of
        Panic \<Rightarrow> Some Panic
      | Ret (Some e) s1 \<Rightarrow> Some (Ret (Some (errorf ''retry timeout. exiting'')) s1)
      | Ret None s1 \<Rightarrow>
          (case startAll (subscriptions s1) s1 of
             Panic \<Rightarrow> Some Panic
           | Ret (Some e) s2 \<Rightarrow> Some (Ret (Some e) s2)
           | Ret None s2 \<Rightarrow> run_loop n (setIsRunning True s2)))"
| "run_loop 0 s = (if isRunning s then None else Some (Ret None s))"
| "run_loop (Suc n) s =
     (if isRunning s then
        (case run_step s of
           Continue s1 \<Rightarrow> run_loop n s1
         | Return r s1 \<Rightarrow> Some (Ret r s1)
         | Restart s1 \<Rightarrow> Reset n s1
         | Crash \<Rightarrow> Some Panic)
      else Some (Ret None s))"
| "Reset n s =
     (if \<not> isRunning s then Some (Ret None s)
      else case Reset_teardown s of
             Panic \<Rightarrow> Some Panic
           | Ret _ s1 \<Rightarrow> Run n s1)"

text \<open>
  \<open>Reset\<close> below its guard: what a call does once it has read \<open>isRunning\<close> as true.
  The guard reads the flag once and without the mutex, so the engine on which the call
  goes on may have been closed since.
\<close>

definition Reset_past_guard :: "nat \<Rightarrow> engine \<Rightarrow> error option outcome option" where
  "Reset_past_guard n s =
     (case Reset_teardown s of Panic \<Rightarrow> Some Panic | Ret _ s1 \<Rightarrow> Run n s1)"

section \<open>The vocabulary of the statements\<close>

text \<open>The state in which a failed read leaves the engine: the pass is counted and the read recorded.\<close>

definition after_read :: "nat \<Rightarrow> engine \<Rightarrow> engine" where
  "after_read c s = snd (ReadJSON c (snd (select s)))"

fun engine_of :: "step \<Rightarrow> engine option" where
  "engine_of (Continue s) = Some s"
| "engine_of (Return r s) = Some s"
| "engine_of (Restart s) = Some s"
| "engine_of Crash = None"

text \<open>What \<open>printLog\<close> adds to the trace.\<close>

definition log_events :: "logged \<Rightarrow> OperationMessageType \<Rightarrow> engine \<Rightarrow> event list" where
  "log_events message opType s =
     (if log s \<and> opType \<notin> set (disabledLogTypes s) then [Logged message] else [])"

definition terminate_frame :: OperationMessage where
  "terminate_frame = \<lparr>ID = [], Type = GqlConnectionTerminate, Payload = NoPayload\<rparr>"

text \<open>
  The trace of stop frames written on connection \<open>c\<close> for the keys \<open>ks\<close> in turn, the first
  write being the \<open>w\<close>-th of the world.
\<close>

fun stop_trace :: "engine \<Rightarrow> nat \<Rightarrow> nat \<Rightarrow> string list \<Rightarrow> event list" where
  "stop_trace s c w [] = []"
| "stop_trace s c w (k # ks) =
     log_events (LogMessage (stop_frame k)) GqlStop s
     @ Sent c (stop_frame k) (writeResult (env s) w) # stop_trace s c (Suc w) ks"

text \<open>
  The attempts and the sleeps of a trace of \<open>init\<close>, in their order; \<open>paced\<close> says that
  they alternate, that every attempt followed by a sleep has failed, and that every sleep
  lasts a second.
\<close>

definition pace :: "event list \<Rightarrow> event list" where
  "pace evs =
     filter (\<lambda>ev. case ev of ConnectAttempt _ \<Rightarrow> True | Slept _ \<Rightarrow> True | _ \<Rightarrow> False) evs"


definition sleeps :: "event list \<Rightarrow> nat" where
  "sleeps evs = length (filter (\<lambda>ev. case ev of Slept _ \<Rightarrow> True | _ \<Rightarrow> False) evs)"



text \<open>A subscription as \<open>Reset\<close> leaves it, and as a start frame that was written leaves it.\<close>

definition flagged :: "subscription \<Rightarrow> subscription" where
  "flagged sub = sub\<lparr>started := False, restarting := True\<rparr>"




section \<open>Example states\<close>

definition id_a :: string where
  "id_a = ''6ba7b810-9dad-11d1-80b4-00c04fd430c8''"

definition id_b :: string where
  "id_b = ''6ba7b811-9dad-11d1-80b4-00c04fd430c8''"

definition id_c :: string where
  "id_c = ''6ba7b812-9dad-11d1-80b4-00c04fd430c8''"

text \<open>A world where every dial, write and close succeeds and every read meets the end of the stream.\<close>

definition example_world :: world where
  "example_world =
     \<lparr>lag = (\<lambda>_. 0), dialResult = (\<lambda>_. None), writeResult = (\<lambda>_. None),
      readResult = (\<lambda>_. Inl io_EOF), closeResult = (\<lambda>_. None),
      uuid_New = (\<lambda>n. if n = 0 then id_a else if n = 1 then id_b else id_c),
      uuid_Parse = (\<lambda>i. if i \<in> {id_a, id_b, id_c} then Some i else None),
      pick = (\<lambda>_. True)\<rparr>"

definition example_sub :: "string \<Rightarrow> bool \<Rightarrow> subscription" where
  "example_sub q st =
     \<lparr>query = q, variables = Inr ''{}'', handler = (\<lambda>_. None), started = st, restarting = False\<rparr>"

text \<open>An engine whose pump runs on its first connection, with two subscriptions started.\<close>

definition connected :: "world \<Rightarrow> engine" where
  "connected w =
     (NewSubscriptionClient w)
       \<lparr>conn := Some 0, ctx := Some False, isRunning := True, dials := 1, writes := 3,
        uuids := 2,
        subscriptions := [(id_a, example_sub ''subscription { a }'' True),
                          (id_b, example_sub ''subscription { b }'' True)]\<rparr>"

definition complete_a :: OperationMessage where
  "complete_a = \<lparr>ID = id_a, Type = GqlComplete, Payload = NoPayload\<rparr>"

definition reading :: "error \<Rightarrow> engine" where
  "reading err = connected (example_world\<lparr>readResult := (\<lambda>_. Inl err)\<rparr>)"

definition normal_closure :: error where
  "normal_closure = \<lparr>Error = ''status = StatusNormalClosure and reason = bye'', CloseStatus = 1000\<rparr>"

definition going_away :: error where
  "going_away = \<lparr>Error = ''status = StatusGoingAway and reason = restart'', CloseStatus = 1001\<rparr>"

definition timed_out :: error where
  "timed_out = errorf ''context deadline exceeded''"

definition both_ready :: engine where
  "both_ready =
     (connected (example_world\<lparr>pick := (\<lambda>_. False)\<rparr>))
       \<lparr>ctx := Some True, errorChan := [errorf ''handler failed''], onError := Some Some\<rparr>"

text \<open>The engine of \<open>connected\<close> in a world where the next write fails and the later ones succeed.\<close>

definition stop_fails :: engine where
  "stop_fails =
     connected (example_world
       \<lparr>writeResult := (\<lambda>n. if n = 3 then Some (errorf ''broken pipe'') else None)\<rparr>)"

text \<open>
  A new engine with a budget of one second and the disconnect callback set, in a world
  where no dial succeeds.
\<close>

definition unreachable :: engine where
  "unreachable =
     (NewSubscriptionClient
        (example_world\<lparr>dialResult := (\<lambda>_. Some (errorf ''connection refused''))\<rparr>))
       \<lparr>retryTimeout := Second, onDisconnected := True\<rparr>"

text \<open>The engine of \<open>connected\<close> after its pump was told to stop.\<close>

definition stopped :: engine where
  "stopped = setIsRunning False (connected example_world)"

text \<open>
  Close errors whose reason, as the peer chose it, contains \<open>EOF\<close>: one with the status
  of a normal closure and one with another status.
\<close>

definition closure_eof :: error where
  "closure_eof =
     \<lparr>Error = ''status = StatusNormalClosure and reason = EOF'', CloseStatus = 1000\<rparr>"

definition away_eof :: error where
  "away_eof = \<lparr>Error = ''status = StatusGoingAway and reason = EOF'', CloseStatus = 1001\<rparr>"

text \<open>
  The engine of \<open>connected\<close> in a world where the first read returns the normal closure
  with that reason and every later read a normal closure.
\<close>

definition closing :: engine where
  "closing =
     connected (example_world
       \<lparr>readResult := (\<lambda>n. if n = 0 then Inl closure_eof else Inl normal_closure)\<rparr>)"

section \<open>Basic facts\<close>

text \<open>The equations that evaluate the engine and the example states.\<close>

lemmas engine_defs =
  errorf_def io_EOF_def StatusNormalClosure_def Second_def Minute_def NewSubscriptionClient_def
  setIsRunning_def WriteJSON_def ReadJSON_def conn_Close_def SetReadLimit_def
  newWebsocketConn_def time_Now_def time_Sleep_def printLog_def cancel_def
  stopSubscription_def Unsubscribe_def findSubscription_def runSubHandler_def
  startSubscription_def createSubscription_def terminate_def sendConnectionInit_def
  init_attempt_def give_up_def retry_pause_def attempted_def init_def Close_def drop_conn_def
  Reset_teardown_def select_def report_def read_failed_def dispatch_def run_step_def
  after_read_def stop_frame_def start_frame_def terminate_frame_def Reset_past_guard_def
  Let_def

lemmas example_defs =
  id_a_def id_b_def id_c_def example_world_def example_sub_def connected_def complete_a_def
  reading_def normal_closure_def going_away_def timed_out_def both_ready_def stop_fails_def
  unreachable_def stopped_def closure_eof_def away_eof_def closing_def

lemma stopSubscription_no_conn:
  "conn s = None \<Longrightarrow> stopSubscription sid s = (None, s)"
  by (simp add: stopSubscription_def)

lemma stopSubscription_conn:
  "conn s = Some c \<Longrightarrow>
   stopSubscription sid s =
     WriteJSON c (stop_frame sid) (printLog (LogMessage (stop_frame sid)) GqlStop s)"
  by (simp add: stopSubscription_def stop_frame_def Let_def)

lemma printLog_fields [simp]:
  "conn (printLog m t s) = conn s"
  "subscriptions (printLog m t s) = subscriptions s"
  "writes (printLog m t s) = writes s"
  "env (printLog m t s) = env s"
  "ctx (printLog m t s) = ctx s"
  "isRunning (printLog m t s) = isRunning s"
  "errorChan (printLog m t s) = errorChan s"
  "reads (printLog m t s) = reads s"
  "closes (printLog m t s) = closes s"
  "log (printLog m t s) = log s"
  "disabledLogTypes (printLog m t s) = disabledLogTypes s"
  "onError (printLog m t s) = onError s"
  "onConnected (printLog m t s) = onConnected s"
  by (simp_all add: printLog_def)

lemma Unsubscribe_absent:
  "map_of (subscriptions s) sid = None \<Longrightarrow>
   Unsubscribe sid s = (Some (errorf (''subscription id '' @ sid @ '' doesn't not exist'')), s)"
  by (simp add: Unsubscribe_def)

lemma Unsubscribe_no_conn:
  "map_of (subscriptions s) sid \<noteq> None \<Longrightarrow> conn s = None \<Longrightarrow>
   Unsubscribe sid s = (None, s\<lparr>subscriptions := AList.delete sid (subscriptions s)\<rparr>)"
  by (auto simp: Unsubscribe_def stopSubscription_no_conn)

lemma Unsubscribe_conn:
  "map_of (subscriptions s) sid \<noteq> None \<Longrightarrow> conn s = Some c \<Longrightarrow>
   Unsubscribe sid s =
     (writeResult (env s) (writes s),
      (printLog (LogMessage (stop_frame sid)) GqlStop s)
        \<lparr>writes := Suc (writes s),
         trace := trace (printLog (LogMessage (stop_frame sid)) GqlStop s)
           @ [Sent c (stop_frame sid) (writeResult (env s) (writes s))],
         subscriptions := AList.delete sid (subscriptions s)\<rparr>)"
  by (auto simp: Unsubscribe_def stopSubscription_conn WriteJSON_def Let_def)

lemma Unsubscribe_subscriptions:
  "subscriptions (snd (Unsubscribe sid s)) = AList.delete sid (subscriptions s)"
proof (cases "map_of (subscriptions s) sid")
  case None
  then have "sid \<notin> fst ` set (subscriptions s)"
    by (simp add: map_of_eq_None_iff)
  with None show ?thesis
    by (simp add: Unsubscribe_absent)
next
  case (Some sub)
  then show ?thesis
    by (cases "conn s") (simp_all add: Unsubscribe_no_conn Unsubscribe_conn)
qed

lemma startSubscription_started:
  "started sub \<Longrightarrow> startSubscription sid sub s = Ret (None, sub) s"
  by (simp add: startSubscription_def)



lemma dispatch_complete:
  "Type message = GqlComplete \<Longrightarrow> dispatch message s = snd (Unsubscribe (ID message) s)"
  by (simp add: dispatch_def GqlComplete_def GqlError_def GqlData_def)

lemma select_default:
  "ctx s \<noteq> Some True \<Longrightarrow> errorChan s = [] \<Longrightarrow>
   select s = (Default, s\<lparr>selects := Suc (selects s)\<rparr>)"
  by (simp add: select_def Let_def)

section \<open>Cancelling a subscription\<close>

text \<open>
  Claim C6. \<open>Unsubscribe\<close> of an identifier that the registry does not hold returns the
  error that the subscription does not exist and leaves the state as it is. For an
  identifier the registry holds, the entry is removed whatever the write answers; a stop
  frame is written only when there is a connection, and the result of \<open>Unsubscribe\<close> is
  the answer of that write.
\<close>

theorem Unsubscribe_cancel:
  "(map_of (subscriptions s) sid = None \<longrightarrow>
      Unsubscribe sid s
        = (Some (errorf (''subscription id '' @ sid @ '' doesn't not exist'')), s))
   \<and> (map_of (subscriptions s) sid \<noteq> None \<longrightarrow>
        subscriptions (snd (Unsubscribe sid s)) = AList.delete sid (subscriptions s)
        \<and> map_of (subscriptions (snd (Unsubscribe sid s))) sid = None
        \<and> (conn s = None \<longrightarrow>
             fst (Unsubscribe sid s) = None \<and> trace (snd (Unsubscribe sid s)) = trace s)
        \<and> (\<forall>c. conn s = Some c \<longrightarrow>
             fst (Unsubscribe sid s) = writeResult (env s) (writes s)
             \<and> trace (snd (Unsubscribe sid s))
                 = trace (printLog (LogMessage (stop_frame sid)) GqlStop s)
                   @ [Sent c (stop_frame sid) (writeResult (env s) (writes s))]))"
proof (cases "conn s")
  case None
  then show ?thesis
    by (auto simp: Unsubscribe_absent Unsubscribe_no_conn delete_conv)
next
  case (Some c)
  then show ?thesis
    by (auto simp: Unsubscribe_absent Unsubscribe_conn delete_conv)
qed

theorem Unsubscribe_cancel_witness:
  "Unsubscribe ''no-such-id'' (connected example_world)
     = (Some (errorf ''subscription id no-such-id doesn't not exist''), connected example_world)
   \<and> map fst (subscriptions (snd (Unsubscribe id_a
        (connected (example_world\<lparr>writeResult := (\<lambda>_. Some (errorf ''broken pipe''))\<rparr>)))))
       = [id_b]
   \<and> fst (Unsubscribe id_a
        (connected (example_world\<lparr>writeResult := (\<lambda>_. Some (errorf ''broken pipe''))\<rparr>)))
       = Some (errorf ''broken pipe'')
   \<and> map fst (subscriptions (snd (Unsubscribe id_b ((connected example_world)\<lparr>conn := None\<rparr>))))
       = [id_a]
   \<and> trace (snd (Unsubscribe id_b ((connected example_world)\<lparr>conn := None\<rparr>))) = []"
  using Unsubscribe_cancel [of "connected example_world" "''no-such-id''"]
    Unsubscribe_cancel [of "connected (example_world\<lparr>writeResult := (\<lambda>_. Some (errorf ''broken pipe''))\<rparr>)" id_a]
    Unsubscribe_cancel [of "(connected example_world)\<lparr>conn := None\<rparr>" id_b]
  by (simp add: connected_def NewSubscriptionClient_def example_world_def id_a_def id_b_def id_c_def
      AList.delete_eq)

section \<open>Frames whose identifier does not parse\<close>

text \<open>
  Claim C9. \<open>findSubscription\<close> looks the registry up under the canonical text that
  \<open>uuid.Parse\<close> gives for the identifier of the frame, never under the identifier as
  received. When the identifier does not parse, \<open>runSubHandler\<close> leaves the state as it
  is, and so does the dispatch of a data or error frame: no handler is started, whatever
  keys the registry holds.
\<close>

theorem runSubHandler_unparsable:
  "findSubscription i s =
     (case uuid_Parse (env s) i of
        None \<Rightarrow> None
      | Some canonical \<Rightarrow> map_of (subscriptions s) canonical)
   \<and> (uuid_Parse (env s) (ID message) = None \<longrightarrow>
        runSubHandler message s = s
        \<and> (Type message = GqlData \<or> Type message = GqlError \<longrightarrow> dispatch message s = s))"
  by (auto simp: findSubscription_def runSubHandler_def dispatch_def)

theorem runSubHandler_unparsable_witness:
  "uuid_Parse example_world ''not-a-uuid'' = None
   \<and> map_of (subscriptions ((connected example_world)
        \<lparr>subscriptions := [(''not-a-uuid'', example_sub ''subscription { a }'' True)]\<rparr>))
        ''not-a-uuid'' \<noteq> None
   \<and> dispatch \<lparr>ID = ''not-a-uuid'', Type = GqlData, Payload = Bytes ''{}''\<rparr>
        ((connected example_world)
          \<lparr>subscriptions := [(''not-a-uuid'', example_sub ''subscription { a }'' True)]\<rparr>)
       = (connected example_world)
          \<lparr>subscriptions := [(''not-a-uuid'', example_sub ''subscription { a }'' True)]\<rparr>"
  using runSubHandler_unparsable [of "''not-a-uuid''"
      "(connected example_world)
          \<lparr>subscriptions := [(''not-a-uuid'', example_sub ''subscription { a }'' True)]\<rparr>"
      "\<lparr>ID = ''not-a-uuid'', Type = GqlData, Payload = Bytes ''{}''\<rparr>"]
  by (simp add: connected_def NewSubscriptionClient_def example_world_def id_a_def id_b_def id_c_def)

section \<open>Registering a subscription\<close>




section \<open>The complete frame\<close>

text \<open>
  Claim C7. The dispatch of a \<open>complete\<close> frame removes the entry of the frame's
  identifier from the registry; when the entry was there and a connection exists, its
  stop frame is written. A second \<open>complete\<close> frame for the identifier changes nothing:
  the result of \<open>Unsubscribe\<close> is dropped, so the pass through the loop that reads the
  frame continues with the next pass and returns no error.
\<close>

theorem complete_idempotent:
  assumes "Type message = GqlComplete"
  shows "subscriptions (dispatch message s) = AList.delete (ID message) (subscriptions s)
    \<and> map_of (subscriptions (dispatch message s)) (ID message) = None
    \<and> dispatch message (dispatch message s) = dispatch message s
    \<and> (map_of (subscriptions s) (ID message) = None \<longrightarrow> dispatch message s = s)
    \<and> (\<forall>c. conn s = Some c \<and> map_of (subscriptions s) (ID message) \<noteq> None \<longrightarrow>
         trace (dispatch message s)
           = trace (printLog (LogMessage (stop_frame (ID message))) GqlStop s)
             @ [Sent c (stop_frame (ID message)) (writeResult (env s) (writes s))])
    \<and> (\<forall>c. isRunning s \<and> ctx s = Some False \<and> errorChan s = [] \<and> conn s = Some c
           \<and> readResult (env s) (reads s) = Inr message \<longrightarrow>
         run_step s = Continue (dispatch message (snd (ReadJSON c (snd (select s)))))
         \<and> run_loop (Suc n) s
             = run_loop n (dispatch message (snd (ReadJSON c (snd (select s))))))"
proof -
  have absent: "dispatch message t = t" if "map_of (subscriptions t) (ID message) = None" for t
    using that assms by (simp add: dispatch_complete Unsubscribe_def)
  have del: "subscriptions (dispatch message s) = AList.delete (ID message) (subscriptions s)"
    using assms by (simp add: dispatch_complete Unsubscribe_subscriptions)
  have gone: "map_of (subscriptions (dispatch message s)) (ID message) = None"
    by (simp add: del delete_conv)
  have sent: "trace (dispatch message s)
           = trace (printLog (LogMessage (stop_frame (ID message))) GqlStop s)
             @ [Sent c (stop_frame (ID message)) (writeResult (env s) (writes s))]"
    if "conn s = Some c \<and> map_of (subscriptions s) (ID message) \<noteq> None" for c
    using that assms by (simp add: dispatch_complete Unsubscribe_conn)
  have loop: "run_step s = Continue (dispatch message (snd (ReadJSON c (snd (select s)))))
         \<and> run_loop (Suc n) s
             = run_loop n (dispatch message (snd (ReadJSON c (snd (select s)))))"
    if "isRunning s \<and> ctx s = Some False \<and> errorChan s = [] \<and> conn s = Some c
           \<and> readResult (env s) (reads s) = Inr message" for c
    using that by (simp add: run_step_def select_default ReadJSON_def Let_def)
  show ?thesis
    using del gone absent [OF gone] absent sent loop by blast
qed

theorem complete_idempotent_witness:
  "Type complete_a = GqlComplete
   \<and> map fst (subscriptions (dispatch complete_a (connected example_world))) = [id_b]
   \<and> dispatch complete_a (dispatch complete_a (connected example_world))
       = dispatch complete_a (connected example_world)
   \<and> trace (dispatch complete_a (connected example_world)) = [Sent 0 (stop_frame id_a) None]
   \<and> (\<exists>s'. run_step (connected (example_world\<lparr>readResult := (\<lambda>_. Inr complete_a)\<rparr>))
               = Continue s'
           \<and> map fst (subscriptions s') = [id_b])"
  using complete_idempotent [of complete_a "connected example_world" 0]
    complete_idempotent [of complete_a
      "connected (example_world\<lparr>readResult := (\<lambda>_. Inr complete_a)\<rparr>)" 0]
  by (simp add: complete_a_def connected_def NewSubscriptionClient_def example_world_def
      id_a_def id_b_def id_c_def AList.delete_eq printLog_def select_def ReadJSON_def Let_def
      dispatch_def Unsubscribe_def stopSubscription_def WriteJSON_def stop_frame_def
      GqlComplete_def GqlError_def GqlData_def GqlStop_def run_step_def)

lemma select_fields [simp]:
  "conn (snd (select s)) = conn s"
  "subscriptions (snd (select s)) = subscriptions s"
  "env (snd (select s)) = env s"
  "reads (snd (select s)) = reads s"
  "writes (snd (select s)) = writes s"
  "trace (snd (select s)) = trace s"
  "isRunning (snd (select s)) = isRunning s"
  "ctx (snd (select s)) = ctx s"
  "onError (snd (select s)) = onError s"
  "log (snd (select s)) = log s"
  by (simp_all add: select_def Let_def split: list.splits)

section \<open>A read that fails\<close>

text \<open>
  Claim C4, as amended. In a pass of the loop that reaches the socket (the engine runs, the context is
  not cancelled, no error waits on the channel) and whose read fails, the error is
  classified in this order. An end of stream (the error is \<open>io.EOF\<close> or its text
  contains \<open>EOF\<close>) makes the loop return what \<open>Reset\<close> returns. Otherwise a close
  error with the status of a normal closure ends \<open>Run\<close> with nil, with nothing done
  but the read. Otherwise any other close error is logged and the loop returns what
  \<open>Reset\<close> returns. Every remaining error goes to \<open>onError\<close> when it is set: the
  loop ends with the policy's error when that is not nil, and goes on otherwise (also
  when no policy is set).
\<close>

theorem read_error_policy:
  assumes "isRunning s" and "ctx s = Some False" and "errorChan s = []" and "conn s = Some c"
    and "readResult (env s) (reads s) = Inl err"
  shows
    "(err = io_EOF \<or> strings_Contains (Error err) ''EOF'' \<longrightarrow>
        run_loop (Suc n) s = Reset n (after_read c s))
     \<and> (\<not> (err = io_EOF \<or> strings_Contains (Error err) ''EOF'') \<longrightarrow>
          (CloseStatus err = StatusNormalClosure \<longrightarrow>
             run_loop (Suc n) s = Some (Ret None (after_read c s)))
        \<and> (CloseStatus err \<noteq> StatusNormalClosure \<and> CloseStatus err \<noteq> - 1 \<longrightarrow>
             run_loop (Suc n) s
               = Reset n (printLog (LogText (Error err @ ''. Retry connecting...'')) GqlInternal
                   (after_read c s)))
        \<and> (CloseStatus err = - 1 \<longrightarrow>
             (onError s = None \<longrightarrow> run_loop (Suc n) s = run_loop n (after_read c s))
           \<and> (\<forall>policy. onError s = Some policy \<longrightarrow>
                (\<forall>e. policy err = Some e \<longrightarrow>
                   run_loop (Suc n) s
                     = Some (Ret (Some e)
                         ((after_read c s)\<lparr>trace := trace (after_read c s) @ [OnError err]\<rparr>)))
              \<and> (policy err = None \<longrightarrow>
                   run_loop (Suc n) s
                     = run_loop n
                         ((after_read c s)\<lparr>trace := trace (after_read c s) @ [OnError err]\<rparr>)))))"
proof -
  have step: "run_step s = read_failed err (after_read c s)"
    using assms by (simp add: run_step_def select_default ReadJSON_def Let_def after_read_def)
  have keep: "onError (after_read c s) = onError s"
    by (simp add: after_read_def ReadJSON_def Let_def)
  show ?thesis
    using assms(1) step keep
    by (auto simp: read_failed_def report_def StatusNormalClosure_def split: option.splits)
qed

theorem read_error_policy_witness:
  "run_loop 1 (reading io_EOF) = Reset 0 (after_read 0 (reading io_EOF))
   \<and> run_loop 1 (reading normal_closure) = Some (Ret None (after_read 0 (reading normal_closure)))
   \<and> trace (after_read 0 (reading normal_closure)) = [Received 0 (Inl normal_closure)]
   \<and> run_loop 1 (reading going_away)
       = Reset 0 (printLog (LogText (Error going_away @ ''. Retry connecting...'')) GqlInternal
           (after_read 0 (reading going_away)))
   \<and> run_loop 1 (reading timed_out) = None
   \<and> run_loop 1 ((reading timed_out)\<lparr>onError := Some Some\<rparr>)
       = Some (Ret (Some timed_out)
           ((after_read 0 ((reading timed_out)\<lparr>onError := Some Some\<rparr>))
              \<lparr>trace := [Received 0 (Inl timed_out), OnError timed_out]\<rparr>))"
  using read_error_policy [of "reading io_EOF" 0 io_EOF 0]
    read_error_policy [of "reading normal_closure" 0 normal_closure 0]
    read_error_policy [of "reading going_away" 0 going_away 0]
    read_error_policy [of "reading timed_out" 0 timed_out 0]
    read_error_policy [of "(reading timed_out)\<lparr>onError := Some Some\<rparr>" 0 timed_out 0]
  by (simp add: reading_def connected_def NewSubscriptionClient_def example_world_def
      normal_closure_def going_away_def timed_out_def io_EOF_def errorf_def
      StatusNormalClosure_def after_read_def ReadJSON_def select_def Let_def)

text \<open>
  Claim C4 as stated gives every normal closure a clean end without \<open>Reset\<close>, and
  every other closure a logged \<open>Reset\<close>. The test for the end of the stream comes
  first and looks at the text of the error, so a close error whose reason contains
  \<open>EOF\<close> is an end of stream whatever its status. With the status of a normal closure
  the pass does not return nil: it returns what \<open>Reset\<close> returns, and the engine stops
  its subscriptions, terminates and closes the connection, dials again and replays the
  subscriptions before the next read ends the loop. With another status the engine
  restarts without the line in the log.
\<close>

theorem normal_closure_eof_counterexample:
  "CloseStatus closure_eof = StatusNormalClosure
   \<and> isRunning closing \<and> ctx closing = Some False \<and> errorChan closing = []
   \<and> conn closing = Some 0
   \<and> readResult (env closing) (reads closing) = Inl closure_eof
   \<and> run_step closing = Restart (after_read 0 closing)
   \<and> run_loop 1 closing = Reset 0 (after_read 0 closing)
   \<and> run_loop 1 closing \<noteq> Some (Ret None (after_read 0 closing))
   \<and> run_loop 2 closing =
       Some (Ret None
         (closing\<lparr>conn := Some 1, dials := 2, writes := 9, reads := 2, closes := 1,
            selects := 2, ticks := 1,
            trace :=
              [Received 0 (Inl closure_eof),
               Sent 0 (stop_frame id_a) None, Sent 0 (stop_frame id_b) None,
               Sent 0 terminate_frame None, ConnClosed 0 None, ContextCancelled,
               RunEntered, Dialed None, ReadLimitSet 1 10485760,
               Sent 1 \<lparr>ID = [], Type = GqlConnectionInit, Payload = NoPayload\<rparr> None,
               ConnectAttempt None,
               Sent 1 (start_frame id_a ''subscription { a }'' ''{}'') None,
               Sent 1 (start_frame id_b ''subscription { b }'' ''{}'') None,
               Received 1 (Inl normal_closure)]\<rparr>))
   \<and> CloseStatus away_eof \<noteq> StatusNormalClosure \<and> CloseStatus away_eof \<noteq> - 1
   \<and> log ((reading away_eof)\<lparr>log := True\<rparr>)
   \<and> GqlInternal \<notin> set (disabledLogTypes ((reading away_eof)\<lparr>log := True\<rparr>))
   \<and> run_step ((reading away_eof)\<lparr>log := True\<rparr>)
       = Restart
           ((reading away_eof)
              \<lparr>log := True, reads := 1, selects := 1, trace := [Received 0 (Inl away_eof)]\<rparr>)"
  by (simp add: numeral_2_eq_2 engine_defs example_defs)

section \<open>The select of the loop\<close>

lemma report_keeps:
  "engine_of (report e s) = Some s' \<Longrightarrow> reads s' = reads s \<and> errorChan s' = errorChan s"
  by (auto simp: report_def split: option.splits)

lemma read_failed_keeps:
  "engine_of (read_failed e s) = Some s' \<Longrightarrow> reads s' = reads s"
  by (auto simp: read_failed_def dest: report_keeps split: if_splits)

lemma dispatch_reads: "reads (dispatch m s) = reads s"
proof -
  have "reads (snd (Unsubscribe i s)) = reads s" for i
    by (cases "conn s")
      (auto simp: Unsubscribe_def stopSubscription_no_conn stopSubscription_conn
        WriteJSON_def Let_def printLog_def split: option.splits)
  then show ?thesis
    by (auto simp: dispatch_def runSubHandler_def split: option.splits)
qed

lemma select_sources:
  "(fst (select s) = Default \<longleftrightarrow> ctx s \<noteq> Some True \<and> errorChan s = [])
   \<and> (ctx s = Some True \<and> errorChan s = [] \<longrightarrow>
        select s = (CtxDone, s\<lparr>selects := Suc (selects s)\<rparr>))
   \<and> (\<forall>e es. ctx s \<noteq> Some True \<and> errorChan s = e # es \<longrightarrow>
        select s = (ErrorReceived e, s\<lparr>selects := Suc (selects s), errorChan := es\<rparr>))
   \<and> (\<forall>e es. ctx s = Some True \<and> errorChan s = e # es \<longrightarrow>
        select s =
          (if pick (env s) (selects s) then (CtxDone, s\<lparr>selects := Suc (selects s)\<rparr>)
           else (ErrorReceived e, s\<lparr>selects := Suc (selects s), errorChan := es\<rparr>)))
   \<and> (\<forall>s'. engine_of (run_step s) = Some s' \<longrightarrow>
        (fst (select s) = CtxDone \<longrightarrow> reads s' = reads s \<and> errorChan s' = errorChan s)
      \<and> (\<forall>e. fst (select s) = ErrorReceived e \<longrightarrow>
            reads s' = reads s \<and> errorChan s = e # errorChan s')
      \<and> (fst (select s) = Default \<longrightarrow> reads s' = Suc (reads s) \<and> errorChan s = []))"
proof -
  have sel: "(fst (select s) = Default \<longleftrightarrow> ctx s \<noteq> Some True \<and> errorChan s = [])"
    by (auto simp: select_def Let_def split: list.splits)
  have step: "(fst (select s) = CtxDone \<longrightarrow> reads s' = reads s \<and> errorChan s' = errorChan s)
      \<and> (\<forall>e. fst (select s) = ErrorReceived e \<longrightarrow>
            reads s' = reads s \<and> errorChan s = e # errorChan s')
      \<and> (fst (select s) = Default \<longrightarrow> reads s' = Suc (reads s) \<and> errorChan s = [])"
    if r: "engine_of (run_step s) = Some s'" for s'
  proof (cases "select s")
    case (Pair choice s1)
    from r obtain b where c: "ctx s = Some b"
      by (auto simp: run_step_def split: option.splits)
    show ?thesis
    proof (cases choice)
      case CtxDone
      with Pair r c show ?thesis
        by (auto simp: run_step_def select_def Let_def split: list.splits if_splits)
    next
      case (ErrorReceived e)
      with Pair r c have "engine_of (report e s1) = Some s'"
        by (simp add: run_step_def)
      then have "reads s' = reads s1 \<and> errorChan s' = errorChan s1"
        by (rule report_keeps)
      with Pair ErrorReceived show ?thesis
        by (auto simp: select_def Let_def split: list.splits if_splits)
    next
      case Default
      with Pair have e: "errorChan s = []" "s1 = s\<lparr>selects := Suc (selects s)\<rparr>"
        by (auto simp: select_def Let_def split: list.splits if_splits)
      from Pair Default r c obtain k where k: "conn s1 = Some k"
        by (auto simp: run_step_def split: option.splits)
      have "reads s' = Suc (reads s)"
      proof (cases "readResult (env s) (reads s)")
        case (Inl err)
        with Pair Default r c k e
        have "engine_of (read_failed err (snd (ReadJSON k s1))) = Some s'"
          by (simp add: run_step_def ReadJSON_def Let_def)
        then have "reads s' = reads (snd (ReadJSON k s1))"
          by (rule read_failed_keeps)
        with e show ?thesis by (simp add: ReadJSON_def Let_def)
      next
        case (Inr m)
        with Pair Default r c k e have "s' = dispatch m (snd (ReadJSON k s1))"
          by (simp add: run_step_def ReadJSON_def Let_def)
        with e show ?thesis by (simp add: dispatch_reads ReadJSON_def Let_def)
      qed
      with Pair Default e show ?thesis by simp
    qed
  qed
  show ?thesis
    using sel step by (auto simp: select_def Let_def)
qed

text \<open>
  Claim C8, as amended. A pass of the loop takes one source only: when \<open>select\<close> sees
  the cancelled context nothing is read and no error is received; when it receives an
  error, it is the first one waiting and nothing is read; the socket is read only when the
  context is not cancelled and no error waits, so a waiting error always comes before the
  read. With the context cancelled and no error waiting the pass returns nil, and so does
  the loop of a running engine. With an error waiting and the context not cancelled the
  pass receives it and hands it to the error policy. With neither, the pass reads the
  socket and goes by what the read returns. Between a cancelled context and a waiting
  error there is no order: with both ready the choice is the world's, and the pass does
  what the chosen case does.
\<close>

theorem select_one_source:
  "(fst (select s) = Default \<longleftrightarrow> ctx s \<noteq> Some True \<and> errorChan s = [])
   \<and> (ctx s = Some True \<and> errorChan s = [] \<longrightarrow>
        select s = (CtxDone, s\<lparr>selects := Suc (selects s)\<rparr>)
        \<and> run_step s = Return None (s\<lparr>selects := Suc (selects s)\<rparr>)
        \<and> (\<forall>n. isRunning s \<longrightarrow>
              run_loop (Suc n) s = Some (Ret None (s\<lparr>selects := Suc (selects s)\<rparr>))))
   \<and> (\<forall>e es. ctx s \<noteq> Some True \<and> errorChan s = e # es \<longrightarrow>
        select s = (ErrorReceived e, s\<lparr>selects := Suc (selects s), errorChan := es\<rparr>))
   \<and> (\<forall>e es. ctx s = Some False \<and> errorChan s = e # es \<longrightarrow>
        run_step s = report e (s\<lparr>selects := Suc (selects s), errorChan := es\<rparr>))
   \<and> (\<forall>e es. ctx s = Some True \<and> errorChan s = e # es \<longrightarrow>
        select s =
          (if pick (env s) (selects s) then (CtxDone, s\<lparr>selects := Suc (selects s)\<rparr>)
           else (ErrorReceived e, s\<lparr>selects := Suc (selects s), errorChan := es\<rparr>))
        \<and> run_step s =
          (if pick (env s) (selects s) then Return None (s\<lparr>selects := Suc (selects s)\<rparr>)
           else report e (s\<lparr>selects := Suc (selects s), errorChan := es\<rparr>)))
   \<and> (ctx s = Some False \<and> errorChan s = [] \<longrightarrow>
        run_step s =
          (case conn s of
             None \<Rightarrow> Crash
           | Some c \<Rightarrow>
               (case readResult (env s) (reads s) of
                  Inl err \<Rightarrow> read_failed err (after_read c s)
                | Inr message \<Rightarrow> Continue (dispatch message (after_read c s)))))
   \<and> (\<forall>s'. engine_of (run_step s) = Some s' \<longrightarrow>
        (fst (select s) = CtxDone \<longrightarrow> reads s' = reads s \<and> errorChan s' = errorChan s)
      \<and> (\<forall>e. fst (select s) = ErrorReceived e \<longrightarrow>
            reads s' = reads s \<and> errorChan s = e # errorChan s')
      \<and> (fst (select s) = Default \<longrightarrow> reads s' = Suc (reads s) \<and> errorChan s = []))"
proof -
  have cancelled: "run_step s = Return None (s\<lparr>selects := Suc (selects s)\<rparr>)
      \<and> (\<forall>n. isRunning s \<longrightarrow>
            run_loop (Suc n) s = Some (Ret None (s\<lparr>selects := Suc (selects s)\<rparr>)))"
    if "ctx s = Some True \<and> errorChan s = []"
    using that by (simp add: run_step_def select_def Let_def)
  have err: "run_step s = report e (s\<lparr>selects := Suc (selects s), errorChan := es\<rparr>)"
    if "ctx s = Some False \<and> errorChan s = e # es" for e es
    using that by (simp add: run_step_def select_def Let_def)
  have both: "run_step s =
          (if pick (env s) (selects s) then Return None (s\<lparr>selects := Suc (selects s)\<rparr>)
           else report e (s\<lparr>selects := Suc (selects s), errorChan := es\<rparr>))"
    if "ctx s = Some True \<and> errorChan s = e # es" for e es
    using that by (simp add: run_step_def select_def Let_def)
  have read: "run_step s =
          (case conn s of
             None \<Rightarrow> Crash
           | Some c \<Rightarrow>
               (case readResult (env s) (reads s) of
                  Inl err \<Rightarrow> read_failed err (after_read c s)
                | Inr message \<Rightarrow> Continue (dispatch message (after_read c s))))"
    if "ctx s = Some False \<and> errorChan s = []"
    using that
    by (simp add: run_step_def select_default after_read_def ReadJSON_def Let_def
        split: option.split sum.split)
  note old = select_sources [of s]
  have c1: "(fst (select s) = Default \<longleftrightarrow> ctx s \<noteq> Some True \<and> errorChan s = [])"
    by (rule old [THEN conjunct1])
  have c2: "ctx s = Some True \<and> errorChan s = [] \<longrightarrow>
        select s = (CtxDone, s\<lparr>selects := Suc (selects s)\<rparr>)
        \<and> run_step s = Return None (s\<lparr>selects := Suc (selects s)\<rparr>)
        \<and> (\<forall>n. isRunning s \<longrightarrow>
              run_loop (Suc n) s = Some (Ret None (s\<lparr>selects := Suc (selects s)\<rparr>)))"
    using old [THEN conjunct2, THEN conjunct1] cancelled by blast
  have c3: "\<forall>e es. ctx s \<noteq> Some True \<and> errorChan s = e # es \<longrightarrow>
        select s = (ErrorReceived e, s\<lparr>selects := Suc (selects s), errorChan := es\<rparr>)"
    by (rule old [THEN conjunct2, THEN conjunct2, THEN conjunct1])
  have c4: "\<forall>e es. ctx s = Some False \<and> errorChan s = e # es \<longrightarrow>
        run_step s = report e (s\<lparr>selects := Suc (selects s), errorChan := es\<rparr>)"
    using err by blast
  have c5: "\<forall>e es. ctx s = Some True \<and> errorChan s = e # es \<longrightarrow>
        select s =
          (if pick (env s) (selects s) then (CtxDone, s\<lparr>selects := Suc (selects s)\<rparr>)
           else (ErrorReceived e, s\<lparr>selects := Suc (selects s), errorChan := es\<rparr>))
        \<and> run_step s =
          (if pick (env s) (selects s) then Return None (s\<lparr>selects := Suc (selects s)\<rparr>)
           else report e (s\<lparr>selects := Suc (selects s), errorChan := es\<rparr>))"
  proof (intro allI impI conjI)
    fix e es
    assume h: "ctx s = Some True \<and> errorChan s = e # es"
    from old [THEN conjunct2, THEN conjunct2, THEN conjunct2, THEN conjunct1, rule_format, OF h]
    show "select s =
          (if pick (env s) (selects s) then (CtxDone, s\<lparr>selects := Suc (selects s)\<rparr>)
           else (ErrorReceived e, s\<lparr>selects := Suc (selects s), errorChan := es\<rparr>))" .
    from both [OF h]
    show "run_step s =
          (if pick (env s) (selects s) then Return None (s\<lparr>selects := Suc (selects s)\<rparr>)
           else report e (s\<lparr>selects := Suc (selects s), errorChan := es\<rparr>))" .
  qed
  have c6: "ctx s = Some False \<and> errorChan s = [] \<longrightarrow>
        run_step s =
          (case conn s of
             None \<Rightarrow> Crash
           | Some c \<Rightarrow>
               (case readResult (env s) (reads s) of
                  Inl err \<Rightarrow> read_failed err (after_read c s)
                | Inr message \<Rightarrow> Continue (dispatch message (after_read c s))))"
    using read by (rule impI)
  note c7 = old [THEN conjunct2, THEN conjunct2, THEN conjunct2, THEN conjunct2]
  show ?thesis
    using c1 c2 c3 c4 c5 c6 c7 by (intro conjI)
qed

text \<open>
  Claim C8 as stated asks that a cancelled context is always seen before a waiting error.
  With both ready and the choice falling on the channel, the pass receives the error and
  the loop returns the policy's error.
\<close>

theorem select_no_priority_counterexample:
  "ctx both_ready = Some True
   \<and> fst (select both_ready) = ErrorReceived (errorf ''handler failed'')
   \<and> run_step both_ready
       = Return (Some (errorf ''handler failed''))
           (both_ready\<lparr>errorChan := [], selects := 1,
              trace := [OnError (errorf ''handler failed'')]\<rparr>)"
  by (simp add: both_ready_def connected_def NewSubscriptionClient_def example_world_def
      run_step_def select_def report_def Let_def)

theorem select_one_source_witness:
  "fst (select both_ready) = ErrorReceived (errorf ''handler failed'')
   \<and> fst (select (both_ready\<lparr>errorChan := []\<rparr>)) = CtxDone
   \<and> fst (select (both_ready\<lparr>ctx := Some False\<rparr>)) = ErrorReceived (errorf ''handler failed'')
   \<and> fst (select (connected example_world)) = Default
   \<and> run_step (both_ready\<lparr>errorChan := []\<rparr>)
       = Return None (both_ready\<lparr>errorChan := [], selects := 1\<rparr>)
   \<and> run_loop 1 (both_ready\<lparr>errorChan := []\<rparr>)
       = Some (Ret None (both_ready\<lparr>errorChan := [], selects := 1\<rparr>))
   \<and> run_step (both_ready\<lparr>ctx := Some False\<rparr>)
       = Return (Some (errorf ''handler failed''))
           (both_ready\<lparr>ctx := Some False, errorChan := [], selects := 1,
              trace := [OnError (errorf ''handler failed'')]\<rparr>)
   \<and> (\<exists>s'. engine_of (run_step (connected example_world)) = Some s' \<and> reads s' = 1)"
  using select_one_source [of both_ready] select_one_source [of "both_ready\<lparr>errorChan := []\<rparr>"]
    select_one_source [of "both_ready\<lparr>ctx := Some False\<rparr>"]
    select_one_source [of "connected example_world"]
  by (simp add: both_ready_def connected_def NewSubscriptionClient_def example_world_def
      run_step_def select_def report_def after_read_def ReadJSON_def read_failed_def io_EOF_def
      errorf_def Let_def)

section \<open>Close\<close>

lemma printLog_eq: "printLog m t s = s\<lparr>trace := trace s @ log_events m t s\<rparr>"
  by (simp add: printLog_def log_events_def)

lemma stop_trace_cong:
  "log s' = log s \<Longrightarrow> disabledLogTypes s' = disabledLogTypes s \<Longrightarrow> env s' = env s \<Longrightarrow>
   stop_trace s' c w ks = stop_trace s c w ks"
  by (induction ks arbitrary: w) (simp_all add: log_events_def)

lemma Close_subs_no_conn:
  "conn s = None \<Longrightarrow> subscriptions s = al \<Longrightarrow> distinct (map fst al) \<Longrightarrow>
   Close_subs (map fst al) s = (None, s\<lparr>subscriptions := []\<rparr>)"
proof (induction al arbitrary: s)
  case Nil
  then show ?case by simp
next
  case (Cons a al)
  obtain k v where a: "a = (k, v)" by (cases a)
  from Cons.prems a have k: "k \<notin> fst ` set al" by auto
  have u: "Unsubscribe k s = (None, s\<lparr>subscriptions := al\<rparr>)"
    using Cons.prems a k by (simp add: Unsubscribe_no_conn)
  have "Close_subs (map fst al) (s\<lparr>subscriptions := al\<rparr>)
      = (None, s\<lparr>subscriptions := al\<rparr>\<lparr>subscriptions := []\<rparr>)"
    using Cons.prems by (intro Cons.IH) simp_all
  with u a show ?case by simp
qed

lemma Close_subs_prefix:
  "conn s = Some c \<Longrightarrow> subscriptions s = al1 @ al2 \<Longrightarrow> distinct (map fst (al1 @ al2)) \<Longrightarrow>
   \<forall>i < length al1. writeResult (env s) (writes s + i) = None \<Longrightarrow>
   Close_subs (map fst al1) s =
     (None, s\<lparr>subscriptions := al2, writes := writes s + length al1,
              trace := trace s @ stop_trace s c (writes s) (map fst al1)\<rparr>)"
proof (induction al1 arbitrary: s)
  case Nil
  then show ?case by simp
next
  case (Cons a al1)
  obtain k v where a: "a = (k, v)" by (cases a)
  from Cons.prems a have k: "k \<notin> fst ` set (al1 @ al2)" by auto
  define s1 where "s1 = s\<lparr>writes := Suc (writes s),
      trace := trace s @ log_events (LogMessage (stop_frame k)) GqlStop s
        @ [Sent c (stop_frame k) None],
      subscriptions := al1 @ al2\<rparr>"
  have w0: "writeResult (env s) (writes s) = None"
    using Cons.prems(4) by force
  have u: "Unsubscribe k s = (None, s1)"
    using Cons.prems(1,2) a k w0 by (simp add: Unsubscribe_conn printLog_eq s1_def)
  have ih: "Close_subs (map fst al1) s1 =
     (None, s1\<lparr>subscriptions := al2, writes := writes s1 + length al1,
              trace := trace s1 @ stop_trace s1 c (writes s1) (map fst al1)\<rparr>)"
  proof (rule Cons.IH)
    show "conn s1 = Some c" using Cons.prems(1) by (simp add: s1_def)
    show "subscriptions s1 = al1 @ al2" by (simp add: s1_def)
    show "distinct (map fst (al1 @ al2))" using Cons.prems(3) by simp
    show "\<forall>i<length al1. writeResult (env s1) (writes s1 + i) = None"
      using Cons.prems(4) by (auto simp: s1_def)
  qed
  have st: "stop_trace s1 c w ks = stop_trace s c w ks" for w ks
    by (rule stop_trace_cong) (simp_all add: s1_def)
  show ?case
    using u ih a w0 by (simp add: st) (simp add: s1_def)
qed


lemma stop_trace_append:
  "stop_trace s c w (ks1 @ ks2) = stop_trace s c w ks1 @ stop_trace s c (w + length ks1) ks2"
  by (induction ks1 arbitrary: w) simp_all

lemma Close_subs_append:
  "Close_subs (ks1 @ ks2) s =
     (case Close_subs ks1 s of (Some e, s1) \<Rightarrow> (Some e, s1) | (None, s1) \<Rightarrow> Close_subs ks2 s1)"
  by (induction ks1 arbitrary: s) (auto split: prod.splits option.splits)

lemma Close_subs_failure:
  assumes c: "conn s = Some c" and d: "distinct (map fst (subscriptions s))"
    and k: "k < length (subscriptions s)"
    and ok: "\<forall>i < k. writeResult (env s) (writes s + i) = None"
    and bad: "writeResult (env s) (writes s + k) = Some e"
  shows "Close_subs (map fst (subscriptions s)) s =
     (Some e, s\<lparr>subscriptions := drop (Suc k) (subscriptions s), writes := writes s + Suc k,
                trace := trace s
                  @ stop_trace s c (writes s) (map fst (take (Suc k) (subscriptions s)))\<rparr>)"
proof -
  define al where "al = subscriptions s"
  define sk where "sk = s\<lparr>subscriptions := drop k al, writes := writes s + k,
      trace := trace s @ stop_trace s c (writes s) (map fst (take k al))\<rparr>"
  have split: "al = take k al @ drop k al" by simp
  have pre: "Close_subs (map fst (take k al)) s = (None, sk)"
  proof -
    have "Close_subs (map fst (take k al)) s =
      (None, s\<lparr>subscriptions := drop k al, writes := writes s + length (take k al),
              trace := trace s @ stop_trace s c (writes s) (map fst (take k al))\<rparr>)"
    proof (rule Close_subs_prefix [OF c])
      show "subscriptions s = take k al @ drop k al" by (simp add: al_def)
      show "distinct (map fst (take k al @ drop k al))" using d by (simp add: al_def)
      show "\<forall>i<length (take k al). writeResult (env s) (writes s + i) = None"
        using ok by simp
    qed
    moreover have "length (take k al) = k" using k by (simp add: al_def)
    ultimately show ?thesis by (simp add: sk_def)
  qed
  obtain key v where kv: "al ! k = (key, v)" by (cases "al ! k")
  have dk: "drop k al = (key, v) # drop (Suc k) al"
    using k kv by (simp add: al_def Cons_nth_drop_Suc [symmetric])
  have "distinct (map fst (drop k al))"
    using d by (simp add: al_def drop_map [symmetric])
  with dk have notin: "key \<notin> fst ` set (drop (Suc k) al)" by auto
  have st: "stop_trace sk c w ks = stop_trace s c w ks" for w ks
    by (rule stop_trace_cong) (simp_all add: sk_def)
  have le: "log_events m t sk = log_events m t s" for m t
    by (simp add: log_events_def sk_def)
  have u: "Unsubscribe key sk =
     (Some e, s\<lparr>subscriptions := drop (Suc k) al, writes := writes s + Suc k,
                trace := trace s @ stop_trace s c (writes s) (map fst (take (Suc k) al))\<rparr>)"
  proof -
    have "map_of (subscriptions sk) key \<noteq> None" "conn sk = Some c"
      using dk c by (simp_all add: sk_def)
    then have "Unsubscribe key sk =
     (writeResult (env sk) (writes sk),
      (printLog (LogMessage (stop_frame key)) GqlStop sk)
        \<lparr>writes := Suc (writes sk),
         trace := trace (printLog (LogMessage (stop_frame key)) GqlStop sk)
           @ [Sent c (stop_frame key) (writeResult (env sk) (writes sk))],
         subscriptions := AList.delete key (subscriptions sk)\<rparr>)"
      by (rule Unsubscribe_conn)
    moreover have "writeResult (env sk) (writes sk) = Some e"
      using bad by (simp add: sk_def)
    moreover have "AList.delete key (subscriptions sk) = drop (Suc k) al"
      using dk notin by (simp add: sk_def)
    moreover have "map fst (take (Suc k) al) = map fst (take k al) @ [key]"
      using k kv by (simp add: al_def take_Suc_conv_app_nth)
    moreover have "length (take k al) = k" using k by (simp add: al_def)
    ultimately show ?thesis
      by (simp add: printLog_eq le stop_trace_append) (simp add: sk_def)
  qed
  have "map fst al = map fst (take k al) @ key # map fst (drop (Suc k) al)"
    using dk by (metis append_take_drop_id fst_conv list.simps(9) map_append)
  then have "Close_subs (map fst al) s = Close_subs (key # map fst (drop (Suc k) al)) sk"
    using pre by (simp add: Close_subs_append)
  with u show ?thesis by (simp add: al_def)
qed

lemma Unsubscribe_keeps:
  "Unsubscribe k s = (r, s') \<Longrightarrow>
   isRunning s' = isRunning s \<and> ctx s' = ctx s \<and> conn s' = conn s
   \<and> (\<exists>new. trace s' = trace s @ new \<and> RunEntered \<notin> set new)"
proof (cases "map_of (subscriptions s) k")
  case None
  assume "Unsubscribe k s = (r, s')"
  with None show ?thesis by (simp add: Unsubscribe_absent)
next
  case (Some v)
  assume u: "Unsubscribe k s = (r, s')"
  show ?thesis
  proof (cases "conn s")
    case None
    with Some u show ?thesis by (auto simp: Unsubscribe_no_conn)
  next
    case (Some c)
    with \<open>map_of (subscriptions s) k = Some v\<close> u show ?thesis
      by (auto simp: Unsubscribe_conn printLog_eq log_events_def)
  qed
qed

lemma Close_subs_keeps:
  "Close_subs ks s = (r, s') \<Longrightarrow>
   isRunning s' = isRunning s \<and> ctx s' = ctx s \<and> conn s' = conn s
   \<and> (\<exists>new. trace s' = trace s @ new \<and> RunEntered \<notin> set new)"
proof (induction ks arbitrary: s)
  case Nil
  then show ?case by simp
next
  case (Cons k ks)
  obtain r1 s1 where u: "Unsubscribe k s = (r1, s1)" by (cases "Unsubscribe k s")
  note k1 = Unsubscribe_keeps [OF u]
  show ?case
  proof (cases r1)
    case (Some e)
    with Cons.prems u k1 show ?thesis by simp
  next
    case None
    with Cons.prems u have "Close_subs ks s1 = (r, s')" by simp
    from Cons.IH [OF this] k1 show ?thesis by auto
  qed
qed


lemma Close_no_conn:
  assumes "ctx s \<noteq> None" and "distinct (map fst (subscriptions s))" and "conn s = None"
  shows "Close s =
     Ret None (s\<lparr>isRunning := False, subscriptions := [], ctx := Some True,
                 trace := trace s @ [ContextCancelled]\<rparr>)"
proof -
  have "Close_subs (map fst (subscriptions (setIsRunning False s))) (setIsRunning False s)
      = (None, (setIsRunning False s)\<lparr>subscriptions := []\<rparr>)"
    using assms by (intro Close_subs_no_conn) (simp_all add: setIsRunning_def)
  then show ?thesis
    using assms by (auto simp: Close_def Let_def cancel_def setIsRunning_def)
qed

lemma Close_all_ok:
  assumes "ctx s \<noteq> None" and "distinct (map fst (subscriptions s))" and "conn s = Some c"
    and "\<forall>i < length (subscriptions s). writeResult (env s) (writes s + i) = None"
  shows "Close s =
     Ret (closeResult (env s) (closes s))
       (s\<lparr>isRunning := False, subscriptions := [], conn := None, ctx := Some True,
          writes := Suc (writes s + length (subscriptions s)), closes := Suc (closes s),
          trace := trace s @ stop_trace s c (writes s) (map fst (subscriptions s))
            @ log_events (LogMessage terminate_frame) GqlConnectionTerminate s
            @ [Sent c terminate_frame (writeResult (env s) (writes s + length (subscriptions s))),
               ConnClosed c (closeResult (env s) (closes s)), ContextCancelled]\<rparr>)"
proof -
  define s0 where "s0 = s\<lparr>isRunning := False\<rparr>"
  define s1 where "s1 = s0\<lparr>subscriptions := [], writes := writes s0 + length (subscriptions s),
      trace := trace s0 @ stop_trace s0 c (writes s0) (map fst (subscriptions s))\<rparr>"
  define s2 where "s2 = s1\<lparr>writes := Suc (writes s1),
      trace := trace s1 @ log_events (LogMessage terminate_frame) GqlConnectionTerminate s1
        @ [Sent c terminate_frame (writeResult (env s1) (writes s1))]\<rparr>"
  define s3 where "s3 = s2\<lparr>closes := Suc (closes s2),
      trace := trace s2 @ [ConnClosed c (closeResult (env s2) (closes s2))]\<rparr>"
  have f: "conn s0 = Some c" "subscriptions s0 = subscriptions s @ []"
    "distinct (map fst (subscriptions s @ []))"
    "\<forall>i < length (subscriptions s). writeResult (env s0) (writes s0 + i) = None"
    using assms by (simp_all add: s0_def)
  have st: "stop_trace s0 c w ks = stop_trace s c w ks" for w ks
    by (rule stop_trace_cong) (simp_all add: s0_def)
  have cs: "Close_subs (map fst (subscriptions s0)) s0 = (None, s1)"
    using Close_subs_prefix [OF f] by (simp add: s1_def s0_def)
  have c1: "conn s1 = Some c"
    using assms(3) by (simp add: s1_def s0_def)
  have tm: "terminate s1 = (writeResult (env s1) (writes s1), s2)"
    using c1 by (simp add: terminate_def WriteJSON_def printLog_eq Let_def s2_def
        terminate_frame_def)
  have cl: "conn_Close c s2 = (closeResult (env s2) (closes s2), s3)"
    by (simp add: conn_Close_def Let_def s3_def)
  from assms(1) obtain b where "ctx s = Some b" by auto
  then have cx: "cancel (s3\<lparr>conn := None\<rparr>)
      = Ret () (s3\<lparr>conn := None, ctx := Some True, trace := trace s3 @ [ContextCancelled]\<rparr>)"
    by (simp add: cancel_def s3_def s2_def s1_def s0_def)
  have "Close s = Ret (closeResult (env s2) (closes s2))
      (s3\<lparr>conn := None, ctx := Some True, trace := trace s3 @ [ContextCancelled]\<rparr>)"
    by (simp add: Close_def setIsRunning_def s0_def [symmetric] cs c1 tm cl cx)
  moreover have "log_events m t s1 = log_events m t s" for m t
    by (simp add: log_events_def s1_def s0_def)
  ultimately show ?thesis
    by (simp add: s3_def s2_def) (simp add: s1_def st, simp add: s0_def)
qed

lemma Close_failure:
  assumes "ctx s \<noteq> None" and "distinct (map fst (subscriptions s))" and "conn s = Some c"
    and "k < length (subscriptions s)"
    and "\<forall>i < k. writeResult (env s) (writes s + i) = None"
    and "writeResult (env s) (writes s + k) = Some e"
  shows "Close s =
     Ret (Some e)
       (s\<lparr>isRunning := False, subscriptions := drop (Suc k) (subscriptions s),
          ctx := Some True, writes := writes s + Suc k,
          trace := trace s @ stop_trace s c (writes s) (map fst (take (Suc k) (subscriptions s)))
            @ [ContextCancelled]\<rparr>)"
proof -
  define s0 where "s0 = setIsRunning False s"
  have f: "conn s0 = Some c" "distinct (map fst (subscriptions s0))"
    "k < length (subscriptions s0)"
    "\<forall>i < k. writeResult (env s0) (writes s0 + i) = None"
    "writeResult (env s0) (writes s0 + k) = Some e"
    using assms by (simp_all add: s0_def setIsRunning_def)
  have st: "stop_trace s0 c w ks = stop_trace s c w ks" for w ks
    by (rule stop_trace_cong) (simp_all add: s0_def setIsRunning_def)
  have sub: "subscriptions s0 = subscriptions s"
    by (simp add: s0_def setIsRunning_def)
  have "Close_subs (map fst (subscriptions s0)) s0 =
     (Some e, s0\<lparr>subscriptions := drop (Suc k) (subscriptions s0), writes := writes s0 + Suc k,
                trace := trace s0
                  @ stop_trace s0 c (writes s0) (map fst (take (Suc k) (subscriptions s0)))\<rparr>)"
    by (rule Close_subs_failure [OF f])
  then show ?thesis
    using assms(1)
    by (auto simp: Close_def Let_def cancel_def st sub s0_def [symmetric])
      (auto simp: s0_def setIsRunning_def)
qed

lemma Close_general:
  assumes "ctx s \<noteq> None"
  shows "\<exists>r s' new. Close s = Ret r s' \<and> \<not> isRunning s' \<and> ctx s' = Some True
     \<and> trace s' = trace s @ new \<and> RunEntered \<notin> set new"
proof -
  define s0 where "s0 = s\<lparr>isRunning := False\<rparr>"
  obtain r1 s1 where cs: "Close_subs (map fst (subscriptions s0)) s0 = (r1, s1)"
    by (cases "Close_subs (map fst (subscriptions s0)) s0")
  from Close_subs_keeps [OF cs] obtain new where
    k: "isRunning s1 = isRunning s0" "ctx s1 = ctx s0" "conn s1 = conn s0"
      "trace s1 = trace s0 @ new" "RunEntered \<notin> set new"
    by auto
  have s0: "\<not> isRunning s0" "ctx s0 = ctx s" "trace s0 = trace s"
    by (simp_all add: s0_def)
  from assms obtain b where b: "ctx s = Some b" by auto
  show ?thesis
  proof (cases r1)
    case (Some e)
    with cs k s0 b show ?thesis
      by (simp add: Close_def Let_def cancel_def setIsRunning_def s0_def [symmetric])
  next
    case None
    show ?thesis
    proof (cases "conn s1")
      case None
      with \<open>r1 = None\<close> cs k s0 b show ?thesis
        by (simp add: Close_def Let_def cancel_def setIsRunning_def s0_def [symmetric])
    next
      case (Some c)
      with k have c1: "conn s1 = Some c" by simp
      obtain r2 s2 where tm: "terminate s1 = (r2, s2)" by (cases "terminate s1")
      with c1 k s0 b obtain new2 where
        t2: "\<not> isRunning s2" "ctx s2 = Some b" "trace s2 = trace s @ new2" "RunEntered \<notin> set new2"
        by (auto simp: terminate_def WriteJSON_def printLog_eq log_events_def Let_def)
      obtain r3 s3 where cl: "conn_Close c s2 = (r3, s3)" by (cases "conn_Close c s2")
      with t2 have
        t3: "\<not> isRunning s3" "ctx s3 = Some b" "trace s3 = trace s @ new2 @ [ConnClosed c r3]"
        by (auto simp: conn_Close_def Let_def)
      from \<open>r1 = None\<close> cs c1 tm cl t2 t3 show ?thesis
        by (simp add: Close_def Let_def cancel_def setIsRunning_def s0_def [symmetric])
    qed
  qed
qed

text \<open>Before the first \<open>init\<close> there is no cancel function to call: \<open>Close\<close> panics.\<close>

lemma Close_never_initialised:
  "ctx s = None \<Longrightarrow> Close s = Panic"
proof -
  assume n: "ctx s = None"
  define s0 where "s0 = s\<lparr>isRunning := False\<rparr>"
  obtain r1 s1 where cs: "Close_subs (map fst (subscriptions s0)) s0 = (r1, s1)"
    by (cases "Close_subs (map fst (subscriptions s0)) s0")
  from Close_subs_keeps [OF cs] n have c1: "ctx s1 = None"
    by (simp add: s0_def)
  show ?thesis
  proof (cases r1)
    case (Some e)
    with cs c1 show ?thesis
      by (simp add: Close_def Let_def cancel_def setIsRunning_def s0_def [symmetric])
  next
    case None
    show ?thesis
    proof (cases "conn s1")
      case None
      with \<open>r1 = None\<close> cs c1 show ?thesis
        by (simp add: Close_def Let_def cancel_def setIsRunning_def s0_def [symmetric])
    next
      case (Some c)
      obtain r2 s2 where tm: "terminate s1 = (r2, s2)" by (cases "terminate s1")
      with Some c1 have t2: "ctx s2 = None"
        by (auto simp: terminate_def WriteJSON_def printLog_eq Let_def)
      obtain r3 s3 where cl: "conn_Close c s2 = (r3, s3)" by (cases "conn_Close c s2")
      with t2 have t3: "ctx s3 = None"
        by (auto simp: conn_Close_def Let_def)
      from \<open>r1 = None\<close> cs Some tm cl t3 show ?thesis
        by (simp add: Close_def Let_def cancel_def setIsRunning_def s0_def [symmetric])
    qed
  qed
qed

text \<open>
  Claim C1, as amended. On an engine whose context exists (\<open>init\<close> has run) and whose
  registry has one entry per key, \<open>Close\<close> returns, leaves the engine not running and
  the context cancelled, and never enters \<open>Run\<close>. With no connection it empties the
  registry and writes nothing. With a connection on which the stop frame of every entry is
  written, it writes these frames in turn, empties the registry, writes the terminate
  frame, closes the connection, clears the reference and returns what closing returned.
  When the write of a stop frame fails, \<open>Close\<close> removes that entry, cancels the context
  and returns the error at once: the entries after it stay in the registry and the
  connection is neither terminated nor closed.
\<close>

theorem Close_teardown:
  assumes "ctx s \<noteq> None" and "distinct (map fst (subscriptions s))"
  shows "\<exists>r s' new. Close s = Ret r s' \<and> \<not> isRunning s' \<and> ctx s' = Some True
     \<and> trace s' = trace s @ new \<and> RunEntered \<notin> set new
     \<and> (conn s = None \<longrightarrow>
          r = None \<and> subscriptions s' = [] \<and> conn s' = None \<and> new = [ContextCancelled])
     \<and> (\<forall>c. conn s = Some c
            \<and> (\<forall>i < length (subscriptions s). writeResult (env s) (writes s + i) = None) \<longrightarrow>
          r = closeResult (env s) (closes s) \<and> subscriptions s' = [] \<and> conn s' = None
          \<and> new = stop_trace s c (writes s) (map fst (subscriptions s))
              @ log_events (LogMessage terminate_frame) GqlConnectionTerminate s
              @ [Sent c terminate_frame
                   (writeResult (env s) (writes s + length (subscriptions s))),
                 ConnClosed c r, ContextCancelled])
     \<and> (\<forall>c k e. conn s = Some c \<and> k < length (subscriptions s)
            \<and> (\<forall>i < k. writeResult (env s) (writes s + i) = None)
            \<and> writeResult (env s) (writes s + k) = Some e \<longrightarrow>
          r = Some e \<and> subscriptions s' = drop (Suc k) (subscriptions s) \<and> conn s' = Some c
          \<and> new = stop_trace s c (writes s) (map fst (take (Suc k) (subscriptions s)))
              @ [ContextCancelled])"
proof -
  from Close_general [OF assms(1)] obtain r s' new where
    g: "Close s = Ret r s'" "\<not> isRunning s'" "ctx s' = Some True"
      "trace s' = trace s @ new" "RunEntered \<notin> set new"
    by blast
  have a: "conn s = None \<longrightarrow>
          r = None \<and> subscriptions s' = [] \<and> conn s' = None \<and> new = [ContextCancelled]"
    using Close_no_conn [OF assms] g by auto
  have b: "\<forall>c. conn s = Some c
            \<and> (\<forall>i < length (subscriptions s). writeResult (env s) (writes s + i) = None) \<longrightarrow>
          r = closeResult (env s) (closes s) \<and> subscriptions s' = [] \<and> conn s' = None
          \<and> new = stop_trace s c (writes s) (map fst (subscriptions s))
              @ log_events (LogMessage terminate_frame) GqlConnectionTerminate s
              @ [Sent c terminate_frame
                   (writeResult (env s) (writes s + length (subscriptions s))),
                 ConnClosed c r, ContextCancelled]"
  proof (intro allI impI)
    fix c
    assume h: "conn s = Some c
      \<and> (\<forall>i < length (subscriptions s). writeResult (env s) (writes s + i) = None)"
    then have "Close s =
      Ret (closeResult (env s) (closes s))
       (s\<lparr>isRunning := False, subscriptions := [], conn := None, ctx := Some True,
          writes := Suc (writes s + length (subscriptions s)), closes := Suc (closes s),
          trace := trace s @ stop_trace s c (writes s) (map fst (subscriptions s))
            @ log_events (LogMessage terminate_frame) GqlConnectionTerminate s
            @ [Sent c terminate_frame (writeResult (env s) (writes s + length (subscriptions s))),
               ConnClosed c (closeResult (env s) (closes s)), ContextCancelled]\<rparr>)"
      using Close_all_ok [OF assms] by blast
    with g show "r = closeResult (env s) (closes s) \<and> subscriptions s' = [] \<and> conn s' = None
          \<and> new = stop_trace s c (writes s) (map fst (subscriptions s))
              @ log_events (LogMessage terminate_frame) GqlConnectionTerminate s
              @ [Sent c terminate_frame
                   (writeResult (env s) (writes s + length (subscriptions s))),
                 ConnClosed c r, ContextCancelled]"
      by auto
  qed
  have c: "\<forall>c k e. conn s = Some c \<and> k < length (subscriptions s)
            \<and> (\<forall>i < k. writeResult (env s) (writes s + i) = None)
            \<and> writeResult (env s) (writes s + k) = Some e \<longrightarrow>
          r = Some e \<and> subscriptions s' = drop (Suc k) (subscriptions s) \<and> conn s' = Some c
          \<and> new = stop_trace s c (writes s) (map fst (take (Suc k) (subscriptions s)))
              @ [ContextCancelled]"
  proof (intro allI impI)
    fix c k e
    assume h: "conn s = Some c \<and> k < length (subscriptions s)
            \<and> (\<forall>i < k. writeResult (env s) (writes s + i) = None)
            \<and> writeResult (env s) (writes s + k) = Some e"
    then have "Close s =
     Ret (Some e)
       (s\<lparr>isRunning := False, subscriptions := drop (Suc k) (subscriptions s),
          ctx := Some True, writes := writes s + Suc k,
          trace := trace s @ stop_trace s c (writes s) (map fst (take (Suc k) (subscriptions s)))
            @ [ContextCancelled]\<rparr>)"
      using Close_failure [OF assms] by blast
    with g h show "r = Some e \<and> subscriptions s' = drop (Suc k) (subscriptions s)
          \<and> conn s' = Some c
          \<and> new = stop_trace s c (writes s) (map fst (take (Suc k) (subscriptions s)))
              @ [ContextCancelled]"
      by auto
  qed
  show ?thesis
    apply (rule exI [of _ r], rule exI [of _ s'], rule exI [of _ new])
    using g a b c by (intro conjI) assumption+
qed

text \<open>
  Claim C1 as stated asks for an empty registry and a closed connection also when a stop
  frame cannot be written. Here the write of the first stop frame fails: \<open>Close\<close> returns
  that error with the second subscription still in the registry and the connection
  neither terminated nor closed.
\<close>

theorem Close_stop_fails_counterexample:
  "Close stop_fails =
     Ret (Some (errorf ''broken pipe''))
       (stop_fails\<lparr>isRunning := False,
          subscriptions := [(id_b, example_sub ''subscription { b }'' True)],
          ctx := Some True, writes := 4,
          trace := [Sent 0 (stop_frame id_a) (Some (errorf ''broken pipe'')), ContextCancelled]\<rparr>)
   \<and> conn stop_fails = Some 0"
  by (simp add: stop_fails_def connected_def NewSubscriptionClient_def example_world_def
      Close_def setIsRunning_def Unsubscribe_def stopSubscription_def WriteJSON_def
      printLog_def cancel_def stop_frame_def id_a_def id_b_def id_c_def Let_def)

theorem Close_teardown_witness:
  "ctx (connected example_world) \<noteq> None
   \<and> distinct (map fst (subscriptions (connected example_world)))
   \<and> (\<exists>s'. Close (connected example_world) = Ret None s' \<and> \<not> isRunning s'
         \<and> ctx s' = Some True \<and> subscriptions s' = [] \<and> conn s' = None
         \<and> trace s' = [Sent 0 (stop_frame id_a) None, Sent 0 (stop_frame id_b) None,
              Sent 0 terminate_frame None, ConnClosed 0 None, ContextCancelled])
   \<and> (\<exists>s'. Close stop_fails = Ret (Some (errorf ''broken pipe'')) s' \<and> \<not> isRunning s'
         \<and> ctx s' = Some True \<and> map fst (subscriptions s') = [id_b] \<and> conn s' = Some 0)"
proof -
  let ?X = "connected example_world"
  have h: "ctx ?X \<noteq> None" "distinct (map fst (subscriptions ?X))"
    by (simp_all add: connected_def NewSubscriptionClient_def id_a_def id_b_def id_c_def)
  have ok: "conn ?X = Some 0
      \<and> (\<forall>i < length (subscriptions ?X). writeResult (env ?X) (writes ?X + i) = None)"
    by (simp add: connected_def NewSubscriptionClient_def example_world_def)
  from Close_teardown [OF h] obtain r s' new where
    g: "Close ?X = Ret r s'" "\<not> isRunning s'" "ctx s' = Some True" "trace s' = trace ?X @ new"
    and b: "\<forall>c. conn ?X = Some c
            \<and> (\<forall>i < length (subscriptions ?X). writeResult (env ?X) (writes ?X + i) = None) \<longrightarrow>
          r = closeResult (env ?X) (closes ?X) \<and> subscriptions s' = [] \<and> conn s' = None
          \<and> new = stop_trace ?X c (writes ?X) (map fst (subscriptions ?X))
              @ log_events (LogMessage terminate_frame) GqlConnectionTerminate ?X
              @ [Sent c terminate_frame
                   (writeResult (env ?X) (writes ?X + length (subscriptions ?X))),
                 ConnClosed c r, ContextCancelled]"
    by blast
  from b ok have "r = closeResult (env ?X) (closes ?X) \<and> subscriptions s' = [] \<and> conn s' = None
          \<and> new = stop_trace ?X 0 (writes ?X) (map fst (subscriptions ?X))
              @ log_events (LogMessage terminate_frame) GqlConnectionTerminate ?X
              @ [Sent 0 terminate_frame
                   (writeResult (env ?X) (writes ?X + length (subscriptions ?X))),
                 ConnClosed 0 r, ContextCancelled]"
    by blast
  with g have first: "\<exists>s'. Close ?X = Ret None s' \<and> \<not> isRunning s'
         \<and> ctx s' = Some True \<and> subscriptions s' = [] \<and> conn s' = None
         \<and> trace s' = [Sent 0 (stop_frame id_a) None, Sent 0 (stop_frame id_b) None,
              Sent 0 terminate_frame None, ConnClosed 0 None, ContextCancelled]"
    by (simp add: connected_def NewSubscriptionClient_def example_world_def log_events_def)
  let ?Y = stop_fails
  have hy: "ctx ?Y \<noteq> None" "distinct (map fst (subscriptions ?Y))"
    by (simp_all add: stop_fails_def connected_def NewSubscriptionClient_def id_a_def id_b_def id_c_def)
  have bad: "conn ?Y = Some 0 \<and> 0 < length (subscriptions ?Y)
      \<and> (\<forall>i < 0. writeResult (env ?Y) (writes ?Y + i) = None)
      \<and> writeResult (env ?Y) (writes ?Y + 0) = Some (errorf ''broken pipe'')"
    by (simp add: stop_fails_def connected_def NewSubscriptionClient_def example_world_def)
  from Close_teardown [OF hy] obtain r2 s2 new2 where
    g2: "Close ?Y = Ret r2 s2" "\<not> isRunning s2" "ctx s2 = Some True"
    and c: "\<forall>c k e. conn ?Y = Some c \<and> k < length (subscriptions ?Y)
            \<and> (\<forall>i < k. writeResult (env ?Y) (writes ?Y + i) = None)
            \<and> writeResult (env ?Y) (writes ?Y + k) = Some e \<longrightarrow>
          r2 = Some e \<and> subscriptions s2 = drop (Suc k) (subscriptions ?Y) \<and> conn s2 = Some c
          \<and> new2 = stop_trace ?Y c (writes ?Y) (map fst (take (Suc k) (subscriptions ?Y)))
              @ [ContextCancelled]"
    by blast
  from c bad have "r2 = Some (errorf ''broken pipe'')
      \<and> subscriptions s2 = drop (Suc 0) (subscriptions ?Y) \<and> conn s2 = Some 0"
    by blast
  with g2 have second: "\<exists>s'. Close ?Y = Ret (Some (errorf ''broken pipe'')) s' \<and> \<not> isRunning s'
         \<and> ctx s' = Some True \<and> map fst (subscriptions s') = [id_b] \<and> conn s' = Some 0"
    by (simp add: stop_fails_def connected_def NewSubscriptionClient_def)
  from h first second show ?thesis by blast
qed

section \<open>Reset on an engine that is not running\<close>

lemma Reset_running: "isRunning s \<Longrightarrow> Reset n s = Reset_past_guard n s"
  by (simp add: Reset_past_guard_def)

lemma Close_stops: "Close s = Ret r s' \<Longrightarrow> \<not> isRunning s'"
proof (cases "ctx s")
  case None
  assume "Close s = Ret r s'"
  with Close_never_initialised [OF None] show ?thesis by simp
next
  case (Some b)
  assume c: "Close s = Ret r s'"
  from Some have "ctx s \<noteq> None" by simp
  from Close_general [OF this] c show ?thesis by auto
qed

text \<open>
  Claim C10, as amended. \<open>Reset\<close> on an engine that is not running returns nil at once
  and leaves the state as it found it: no frame is sent, no flag of a subscription
  changes, the connection stays, and \<open>Run\<close> is not entered (the trace is part of the
  state). It needs no pass through the loop, so it holds for every bound. Every state in
  which \<open>Close\<close> returns is such a state, whatever \<open>Close\<close> returns: a \<open>Reset\<close> called
  after \<open>Close\<close> has returned does nothing and leaves the engine as \<open>Close\<close> left it.
\<close>

theorem Reset_not_running:
  "(\<not> isRunning s \<longrightarrow> Reset n s = Some (Ret None s))
   \<and> (\<forall>r s'. Close s = Ret r s' \<longrightarrow> \<not> isRunning s' \<and> Reset n s' = Some (Ret None s'))"
  using Close_stops [of s] by simp

text \<open>
  Claim C10 as stated also covers a \<open>Reset\<close> that races with \<open>Close\<close>. The guard of
  \<open>Reset\<close> is one unlocked read of the flag. A call that has read the flag of a running
  engine goes on below the guard; when \<open>Close\<close> runs to its end in between, the call goes
  on in the state \<open>Close\<close> left, with no connection and the flag cleared: it cancels the
  context again, enters \<open>Run\<close>, dials a second connection and sets the flag. Here the
  first read on the new connection meets a normal closure, and \<open>Run\<close> returns leaving
  the closed engine connected and running.
\<close>

theorem Reset_racing_Close_counterexample:
  "isRunning (reading normal_closure)
   \<and> Reset 1 (reading normal_closure) = Reset_past_guard 1 (reading normal_closure)
   \<and> Close (reading normal_closure) =
       Ret None
         ((reading normal_closure)
            \<lparr>isRunning := False, subscriptions := [], conn := None, ctx := Some True,
             writes := 6, closes := 1,
             trace := [Sent 0 (stop_frame id_a) None, Sent 0 (stop_frame id_b) None,
                       Sent 0 terminate_frame None, ConnClosed 0 None, ContextCancelled]\<rparr>)
   \<and> Reset_past_guard 1
         ((reading normal_closure)
            \<lparr>isRunning := False, subscriptions := [], conn := None, ctx := Some True,
             writes := 6, closes := 1,
             trace := [Sent 0 (stop_frame id_a) None, Sent 0 (stop_frame id_b) None,
                       Sent 0 terminate_frame None, ConnClosed 0 None, ContextCancelled]\<rparr>) =
       Some (Ret None
         ((reading normal_closure)
            \<lparr>isRunning := True, subscriptions := [], conn := Some 1, ctx := Some False,
             ticks := 1, dials := 2, writes := 7, reads := 1, closes := 1, selects := 1,
             trace := [Sent 0 (stop_frame id_a) None, Sent 0 (stop_frame id_b) None,
                       Sent 0 terminate_frame None, ConnClosed 0 None, ContextCancelled,
                       ContextCancelled, RunEntered, Dialed None, ReadLimitSet 1 10485760,
                       Sent 1 \<lparr>ID = [], Type = GqlConnectionInit, Payload = NoPayload\<rparr> None,
                       ConnectAttempt None, Received 1 (Inl normal_closure)]\<rparr>))"
  by (simp add: engine_defs example_defs)

theorem Reset_not_running_witness:
  "\<not> isRunning stopped
   \<and> Reset 3 stopped = Some (Ret None stopped)
   \<and> (\<exists>s'. Close (connected example_world) = Ret None s' \<and> \<not> isRunning s'
         \<and> conn s' = None \<and> Reset 3 s' = Some (Ret None s'))"
  using Reset_not_running [of stopped 3] Reset_not_running [of "connected example_world" 3]
  by (simp add: engine_defs example_defs)

section \<open>Connecting with retries\<close>

lemma pace_append [simp]: "pace (xs @ ys) = pace xs @ pace ys"
  by (simp add: pace_def)

lemma sleeps_append [simp]: "sleeps (xs @ ys) = sleeps xs + sleeps ys"
  by (simp add: sleeps_def)

lemma pace_simps [simp]:
  "pace [] = []"
  "pace (ConnectAttempt r # evs) = ConnectAttempt r # pace evs"
  "pace (Slept d # evs) = Slept d # pace evs"
  "pace (Dialed r # evs) = pace evs"
  "pace (ReadLimitSet c l # evs) = pace evs"
  "pace (Sent c m r # evs) = pace evs"
  "pace (Logged x # evs) = pace evs"
  "pace (OnDisconnected # evs) = pace evs"
  by (simp_all add: pace_def)

lemma sleeps_simps [simp]:
  "sleeps [] = 0"
  "sleeps (ConnectAttempt r # evs) = sleeps evs"
  "sleeps (Slept d # evs) = Suc (sleeps evs)"
  "sleeps (Dialed r # evs) = sleeps evs"
  "sleeps (ReadLimitSet c l # evs) = sleeps evs"
  "sleeps (Sent c m r # evs) = sleeps evs"
  "sleeps (Logged x # evs) = sleeps evs"
  "sleeps (OnDisconnected # evs) = sleeps evs"
  by (simp_all add: sleeps_def)








section \<open>Reset on a running engine\<close>







lemma flagged_fields [simp]:
  "variables (flagged sub) = variables sub"
  "query (flagged sub) = query sub"
  "handler (flagged sub) = handler sub"
  "\<not> started (flagged sub)"
  "restarting (flagged sub)"
  by (simp_all add: flagged_def)













end
